theory Spec2Isabelle
  imports Complex_Main
begin

section \<open>MessageLoggerv2: the message store (storage.ts)\<close>

text \<open>
  The logged message of \<^verbatim>\<open>storage.ts\<close>. Field names carry the prefix \<open>lm_\<close>
  because the chat message of the host has fields of the same names. Attachments,
  embeds and stickers are \<^verbatim>\<open>any[]\<close> in the source; the model keeps of them
  what \<^verbatim>\<open>logMessage\<close> reads.
\<close>

record Attachment =
  content_type :: "string option"

record Embed =
  embed_image :: bool
  embed_thumbnail :: bool

record LoggedAuthor =
  la_id :: string
  la_username :: string
  la_globalName :: "string option"
  la_avatar :: "string option"

record LoggedMessage =
  lm_id :: string
  lm_content :: string
  lm_timestamp :: string
  lm_author :: LoggedAuthor
  lm_attachments :: "Attachment list"
  lm_embeds :: "Embed list"
  lm_sticker_items :: "string list"
  lm_channel_id :: string
  lm_guild_id :: "string option"
  lm_edited_timestamp :: "string option"
  lm_deleted :: "bool option"
  lm_deleted_timestamp :: "string option"

record UserMessageLog =
  userId :: string
  messages :: "LoggedMessage list"
  lastUpdated :: int

text \<open>
  The class \<^verbatim>\<open>MessageStorage\<close>: the in-memory \<^verbatim>\<open>Map\<close> and the text kept under the
  key \<^verbatim>\<open>vencord-message-logger-v2\<close> of the browser's localStorage. The type of the
  map is a parameter: TypeScript declares \<^verbatim>\<open>Map<string, UserMessageLog>\<close>, which is
  what \<^verbatim>\<open>addMessage\<close> works on, while \<^verbatim>\<open>importData\<close> installs whatever entries
  the imported text holds.
\<close>

record 'm MessageStorage =
  storage :: 'm
  localStorage :: "string option"

type_synonym UserLogs = "string \<rightharpoonup> UserMessageLog"

definition maxMessagesPerUser :: nat where
  "maxMessagesPerUser = 1000"

text \<open>
  \<^verbatim>\<open>saveToLocalStorage\<close>: \<^verbatim>\<open>JSON.stringify\<close> of the entries, then \<^verbatim>\<open>setItem\<close>, inside
  a try/catch that only logs. The host part is the parameter \<open>serialize\<close>: the text
  that ends up stored, or \<open>None\<close> when \<^verbatim>\<open>JSON.stringify\<close> or \<^verbatim>\<open>setItem\<close> throws.
\<close>

definition saveToLocalStorage ::
  "('m \<Rightarrow> string option) \<Rightarrow> 'm MessageStorage \<Rightarrow> 'm MessageStorage" where
  "saveToLocalStorage serialize st =
     (case serialize (storage st) of
        Some txt \<Rightarrow> st\<lparr>localStorage := Some txt\<rparr>
      | None \<Rightarrow> st)"

text \<open>\<^verbatim>\<open>Array.prototype.findIndex\<close>: the first index whose element passes, or \<open>-1\<close>.\<close>

fun findIndex :: "('a \<Rightarrow> bool) \<Rightarrow> 'a list \<Rightarrow> int" where
  "findIndex p [] = -1"
| "findIndex p (x # xs) =
     (if p x then 0
      else (let i = findIndex p xs in if i = -1 then -1 else i + 1))"

text \<open>
  \<^verbatim>\<open>addMessage\<close>. \<open>now\<close> is the reading of \<^verbatim>\<open>Date.now()\<close>; the source reads the
  clock once more when it creates a missing log, and overwrites that value at the end
  of the same call.
\<close>

definition addMessage ::
  "(UserLogs \<Rightarrow> string option) \<Rightarrow> int \<Rightarrow> string \<Rightarrow> LoggedMessage
     \<Rightarrow> UserLogs MessageStorage \<Rightarrow> UserLogs MessageStorage" where
  "addMessage serialize now uid message st =
     (let userLog = (case storage st uid of
                       None \<Rightarrow> \<lparr>userId = uid, messages = [], lastUpdated = now\<rparr>
                     | Some l \<Rightarrow> l);
          existingIndex = findIndex (\<lambda>m. lm_id m = lm_id message) (messages userLog);
          inserted = (if existingIndex \<noteq> -1
                      then (messages userLog)[nat existingIndex := message]
                      else message # messages userLog);
          limited = (if length inserted > maxMessagesPerUser
                     then take maxMessagesPerUser inserted
                     else inserted)
      in saveToLocalStorage serialize
           (st\<lparr>storage := (storage st)(uid \<mapsto> userLog\<lparr>messages := limited, lastUpdated := now\<rparr>)\<rparr>))"

definition getMessages :: "UserLogs MessageStorage \<Rightarrow> string \<Rightarrow> LoggedMessage list" where
  "getMessages st uid = (case storage st uid of Some userLog \<Rightarrow> messages userLog | None \<Rightarrow> [])"

text \<open>A sequence of \<^verbatim>\<open>addMessage\<close> calls, each with its clock reading.\<close>

fun addMessages ::
  "(UserLogs \<Rightarrow> string option) \<Rightarrow> (int \<times> string \<times> LoggedMessage) list
     \<Rightarrow> UserLogs MessageStorage \<Rightarrow> UserLogs MessageStorage" where
  "addMessages serialize [] st = st"
| "addMessages serialize ((now, uid, message) # calls) st =
     addMessages serialize calls (addMessage serialize now uid message st)"


subsection \<open>Import of a JSON text (importData)\<close>

text \<open>
  The values that \<^verbatim>\<open>JSON.parse\<close> returns. Numbers are IEEE doubles in the host;
  nothing below computes with them. The members of an object have pairwise different
  names (of equal names \<^verbatim>\<open>JSON.parse\<close> keeps the last).
\<close>

datatype json =
    JNull
  | JBool bool
  | JNumber real
  | JString string
  | JArray "json list"
  | JObject "(string \<times> json) list"

datatype js_error = SyntaxError | TypeError

text \<open>
  A \<^verbatim>\<open>Map\<close> built from parsed JSON, in insertion order. A key or a value is a JSON
  value or \<^verbatim>\<open>undefined\<close> (\<open>None\<close>): the entry \<^verbatim>\<open>[]\<close> has neither.
\<close>

type_synonym js_map = "(json option \<times> json option) list"

fun is_object :: "json \<Rightarrow> bool" where
  "is_object (JArray xs) = True"
| "is_object (JObject ms) = True"
| "is_object v = False"

text \<open>The properties \<^verbatim>\<open>"0"\<close> and \<^verbatim>\<open>"1"\<close> of an entry object.\<close>

fun get_property :: "json \<Rightarrow> nat \<Rightarrow> string \<Rightarrow> json option" where
  "get_property (JArray xs) i name = (if i < length xs then Some (xs ! i) else None)"
| "get_property (JObject ms) i name = map_of ms name"
| "get_property v i name = None"

text \<open>
  \<^verbatim>\<open>Map.prototype.set\<close> compares keys with SameValueZero: primitives by value, objects
  by identity, and every object that \<^verbatim>\<open>JSON.parse\<close> creates is a new one.
\<close>

definition same_key :: "json option \<Rightarrow> json option \<Rightarrow> bool" where
  "same_key a b = (a = b \<and> (case a of None \<Rightarrow> True | Some v \<Rightarrow> \<not> is_object v))"

fun map_set :: "json option \<Rightarrow> json option \<Rightarrow> js_map \<Rightarrow> js_map" where
  "map_set k v [] = [(k, v)]"
| "map_set k v ((k', v') # es) =
     (if same_key k' k then (k', v) # es else (k', v') # map_set k v es)"

fun addEntries :: "json list \<Rightarrow> js_map \<Rightarrow> js_error + js_map" where
  "addEntries [] m = Inr m"
| "addEntries (item # items) m =
     (if is_object item
      then addEntries items (map_set (get_property item 0 ''0'') (get_property item 1 ''1'') m)
      else Inl TypeError)"

text \<open>
  \<^verbatim>\<open>new Map(data)\<close>: \<^verbatim>\<open>null\<close> gives the empty map; an array is iterated and every
  element has to be an object; a string is iterated character by character, and a
  character is not an object; a boolean, a number and a plain object are not iterable.
\<close>

fun new_Map :: "json \<Rightarrow> js_error + js_map" where
  "new_Map JNull = Inr []"
| "new_Map (JArray items) = addEntries items []"
| "new_Map (JString s) = (if s = [] then Inr [] else Inl TypeError)"
| "new_Map (JBool b) = Inl TypeError"
| "new_Map (JNumber n) = Inl TypeError"
| "new_Map (JObject ms) = Inl TypeError"

text \<open>
  \<^verbatim>\<open>importData\<close>. The host's \<^verbatim>\<open>JSON.parse\<close> is the parameter \<open>JSON_parse\<close>
  (\<open>Inl SyntaxError\<close> when it throws). The assignment to \<^verbatim>\<open>this.storage\<close> comes after
  the constructor has returned; the catch block logs and returns \<^verbatim>\<open>false\<close>.
\<close>

definition importData ::
  "(string \<Rightarrow> js_error + json) \<Rightarrow> (js_map \<Rightarrow> string option) \<Rightarrow> string
     \<Rightarrow> js_map MessageStorage \<Rightarrow> bool \<times> js_map MessageStorage" where
  "importData JSON_parse serialize jsonData st =
     (case JSON_parse jsonData of
        Inl e \<Rightarrow> (False, st)
      | Inr data \<Rightarrow>
          (case new_Map data of
             Inl e \<Rightarrow> (False, st)
           | Inr m \<Rightarrow> (True, saveToLocalStorage serialize (st\<lparr>storage := m\<rparr>))))"

section \<open>MessageLoggerv2: the plugin (logMessage, handleDelete)\<close>

text \<open>
  The chat message of the host, with the fields the plugin reads; \<open>m_deleted\<close> is the
  property that the plugin's patch adds to the host's message model.
\<close>

record MessageAuthor =
  a_id :: string
  a_username :: string
  a_globalName :: "string option"
  a_avatar :: "string option"
  a_bot :: bool

record Message =
  m_id :: string
  m_content :: string
  m_timestamp :: string
  m_author :: "MessageAuthor option"
  m_attachments :: "Attachment list option"
  m_embeds :: "Embed list option"
  m_sticker_items :: "string list option"
  m_channel_id :: string
  m_edited_timestamp :: "string option"
  m_deleted :: bool

record LoggerSettings =
  logImages :: bool
  logStickers :: bool
  logGifs :: bool
  logEmbeds :: bool
  logSelfMessages :: bool

text \<open>
  What \<^verbatim>\<open>logMessage\<close> and \<^verbatim>\<open>handleDelete\<close> read from the host: the current user's id,
  the id of the current guild, the clock (\<^verbatim>\<open>Date.now()\<close> and
  \<^verbatim>\<open>new Date().toISOString()\<close>), the message store, and the serialization used by
  \<^verbatim>\<open>saveToLocalStorage\<close>. One call of a handler runs synchronously; the model gives it
  one reading of the clock. The calls into the host are taken to return; the try/catch
  of \<^verbatim>\<open>handleDelete\<close> only logs.
\<close>

record LoggerHost =
  currentUserId :: "string option"
  currentGuildId :: "string option"
  dateNow :: int
  nowISOString :: string
  getMessage :: "string \<Rightarrow> string option \<Rightarrow> Message option"
  serializeLogs :: "UserLogs \<Rightarrow> string option"

definition startsWith :: "string \<Rightarrow> string \<Rightarrow> bool" where
  "startsWith s p = (take (length p) s = p)"

definition shouldLog :: "LoggerSettings \<Rightarrow> Message \<Rightarrow> bool \<Rightarrow> bool" where
  "shouldLog cfg message isDeleted =
     (m_content message \<noteq> [] \<or>
      (logImages cfg \<and>
         ((case m_attachments message of None \<Rightarrow> False | Some as \<Rightarrow> length as > 0) \<or>
          (case m_embeds message of None \<Rightarrow> False
           | Some es \<Rightarrow> list_ex (\<lambda>e. embed_image e \<or> embed_thumbnail e) es))) \<or>
      (logStickers cfg \<and>
         (case m_sticker_items message of None \<Rightarrow> False | Some ss \<Rightarrow> length ss > 0)) \<or>
      (logGifs cfg \<and>
         (case m_attachments message of None \<Rightarrow> False
          | Some as \<Rightarrow> list_ex (\<lambda>a. case content_type a of None \<Rightarrow> False
                                    | Some ct \<Rightarrow> startsWith ct ''image/gif'') as)) \<or>
      (logEmbeds cfg \<and>
         (case m_embeds message of None \<Rightarrow> False | Some es \<Rightarrow> length es > 0)) \<or>
      isDeleted)"

definition orEmpty :: "'a list option \<Rightarrow> 'a list" where
  "orEmpty xs = (case xs of None \<Rightarrow> [] | Some ys \<Rightarrow> ys)"

definition toLogged :: "LoggerHost \<Rightarrow> MessageAuthor \<Rightarrow> Message \<Rightarrow> bool \<Rightarrow> LoggedMessage" where
  "toLogged host author message isDeleted =
     \<lparr>lm_id = m_id message,
      lm_content = m_content message,
      lm_timestamp = m_timestamp message,
      lm_author = \<lparr>la_id = a_id author, la_username = a_username author,
                    la_globalName = a_globalName author, la_avatar = a_avatar author\<rparr>,
      lm_attachments = orEmpty (m_attachments message),
      lm_embeds = orEmpty (m_embeds message),
      lm_sticker_items = orEmpty (m_sticker_items message),
      lm_channel_id = m_channel_id message,
      lm_guild_id = (case currentGuildId host of None \<Rightarrow> None
                     | Some g \<Rightarrow> if g = [] then None else Some g),
      lm_edited_timestamp = m_edited_timestamp message,
      lm_deleted = Some isDeleted,
      lm_deleted_timestamp = (if isDeleted then Some (nowISOString host) else None)\<rparr>"

definition logMessage ::
  "LoggerSettings \<Rightarrow> LoggerHost \<Rightarrow> Message \<Rightarrow> bool
     \<Rightarrow> UserLogs MessageStorage \<Rightarrow> UserLogs MessageStorage" where
  "logMessage cfg host message isDeleted st =
     (case m_author message of
        None \<Rightarrow> st
      | Some author \<Rightarrow>
          if a_bot author then st
          else if \<not> logSelfMessages cfg \<and> Some (a_id author) = currentUserId host then st
          else if shouldLog cfg message isDeleted
               then addMessage (serializeLogs host) (dateNow host) (a_id author)
                      (toLogged host author message isDeleted) st
               else st)"

text \<open>
  The host's channel cache, by message id. \<^verbatim>\<open>cache.update(id, f)\<close> applies \<open>f\<close> to the
  cached message; the updater of \<^verbatim>\<open>handleDelete\<close> returns a missing message as it is.
\<close>

type_synonym Cache = "string \<rightharpoonup> Message"

definition cache_update :: "string option \<Rightarrow> (Message \<Rightarrow> Message) \<Rightarrow> Cache \<Rightarrow> Cache" where
  "cache_update key f cache =
     (case key of
        None \<Rightarrow> cache
      | Some i \<Rightarrow> (case cache i of None \<Rightarrow> cache | Some m \<Rightarrow> cache(i \<mapsto> f m)))"

record DeleteData =
  d_ids :: "string list option"
  d_id :: "string option"
  d_channelId :: string

text \<open>One iteration of the loop of \<^verbatim>\<open>handleDelete\<close>, for one id.\<close>

definition handleDelete_id ::
  "LoggerSettings \<Rightarrow> LoggerHost \<Rightarrow> string \<Rightarrow> string option
     \<Rightarrow> Cache \<times> UserLogs MessageStorage \<Rightarrow> Cache \<times> UserLogs MessageStorage" where
  "handleDelete_id cfg host channelId i cs =
     (case getMessage host channelId i of
        None \<Rightarrow> cs
      | Some message \<Rightarrow>
          if \<not> (case m_author message of None \<Rightarrow> False | Some a \<Rightarrow> a_bot a)
          then (cache_update i (\<lambda>m. m\<lparr>m_deleted := True\<rparr>) (fst cs),
                logMessage cfg host message True (snd cs))
          else cs)"

fun handleDelete_ids ::
  "LoggerSettings \<Rightarrow> LoggerHost \<Rightarrow> string \<Rightarrow> string option list
     \<Rightarrow> Cache \<times> UserLogs MessageStorage \<Rightarrow> Cache \<times> UserLogs MessageStorage" where
  "handleDelete_ids cfg host channelId [] cs = cs"
| "handleDelete_ids cfg host channelId (i # ids) cs =
     handleDelete_ids cfg host channelId ids (handleDelete_id cfg host channelId i cs)"

definition handleDelete ::
  "LoggerSettings \<Rightarrow> LoggerHost \<Rightarrow> Cache \<Rightarrow> DeleteData \<Rightarrow> bool
     \<Rightarrow> UserLogs MessageStorage \<Rightarrow> Cache \<times> UserLogs MessageStorage" where
  "handleDelete cfg host cache data isBulk st =
     (case (if isBulk then map_option (map Some) (d_ids data) else Some [d_id data]) of
        None \<Rightarrow> (cache, st)
      | Some ids \<Rightarrow> handleDelete_ids cfg host (d_channelId data) ids (cache, st))"


section \<open>AutoMuter\<close>

text \<open>
  Volumes, thresholds and durations are slider values, and times are readings of
  \<^verbatim>\<open>Date.now()\<close> plus a slider value: all of them JavaScript numbers, taken here as
  reals (no rounding of double arithmetic is modelled).
\<close>

record AutoMuterSettings =
  enablePlugin :: bool
  friendVolume :: real
  nonFriendVolume :: real
  enableNoiseDetection :: bool
  noiseThreshold :: real
  muteDuration :: real

text \<open>
  The host as AutoMuter sees it: the current user's id, the relationship type of a
  user, whether the two lazily found modules offer \<^verbatim>\<open>setLocalVolume\<close>, whether that
  call throws, and what \<^verbatim>\<open>MediaEngineStore.getLocalVolume\<close> reports for a user once
  the given volumes have been set (\<open>None\<close> for \<^verbatim>\<open>undefined\<close>). A call that throws
  sets no volume.
\<close>

record AutoMuterHost =
  selfId :: "string option"
  getRelationshipType :: "string \<Rightarrow> int"
  hasAudioConvert :: bool
  hasMediaEngine :: bool
  setLocalVolumeThrows :: bool
  getLocalVolume :: "(string \<rightharpoonup> real) \<Rightarrow> string \<Rightarrow> real option"

text \<open>A callback handed to \<^verbatim>\<open>setTimeout\<close>: the closure's captured variables.\<close>

datatype Callback = AutoUnmute string real

text \<open>
  The module's variables that the functions below use, the volumes set in the host, and
  the timeouts scheduled so far (delay and callback). The source never calls
  \<^verbatim>\<open>clearTimeout\<close>.
\<close>

record AutoMuterState =
  processedUsers :: "string set"
  mutedUsers :: "string \<rightharpoonup> real"
  audioLevels :: "string \<rightharpoonup> real list"
  localVolume :: "string \<rightharpoonup> real"
  timeouts :: "(real \<times> Callback) list"

definition Math_round :: "real \<Rightarrow> int" where
  "Math_round x = \<lfloor>x + 1 / 2\<rfloor>"

definition callSetLocalVolume ::
  "AutoMuterHost \<Rightarrow> string \<Rightarrow> real \<Rightarrow> AutoMuterState \<Rightarrow> AutoMuterState" where
  "callSetLocalVolume host uid v s =
     (if hasAudioConvert host \<or> hasMediaEngine host
      then s\<lparr>localVolume := (localVolume s)(uid \<mapsto> v)\<rparr>
      else s)"

definition setUserVolume ::
  "AutoMuterHost \<Rightarrow> string \<Rightarrow> real \<Rightarrow> AutoMuterState \<Rightarrow> bool \<times> AutoMuterState" where
  "setUserVolume host uid volume s =
     (if (hasAudioConvert host \<or> hasMediaEngine host) \<and> setLocalVolumeThrows host
      then (False, s)
      else
        (let volumeDecimal = volume / 100;
             s' = callSetLocalVolume host uid volumeDecimal s
         in case getLocalVolume host (localVolume s') uid of
              Some currentVolume \<Rightarrow>
                (\<bar>real_of_int (Math_round (currentVolume * 100)) - volume\<bar> \<le> 2, s')
            | None \<Rightarrow> (True, s')))"

definition setUserMuted ::
  "AutoMuterHost \<Rightarrow> string \<Rightarrow> bool \<Rightarrow> AutoMuterState \<Rightarrow> bool \<times> AutoMuterState" where
  "setUserMuted host uid muted s =
     (if (hasAudioConvert host \<or> hasMediaEngine host) \<and> setLocalVolumeThrows host
      then (False, s)
      else (True, callSetLocalVolume host uid (if muted then 0 else 1) s))"

definition isFriend :: "AutoMuterHost \<Rightarrow> string \<Rightarrow> bool" where
  "isFriend host uid = (getRelationshipType host uid = 1)"

definition processUser ::
  "AutoMuterSettings \<Rightarrow> AutoMuterHost \<Rightarrow> string \<Rightarrow> AutoMuterState \<Rightarrow> AutoMuterState" where
  "processUser cfg host uid s =
     (if \<not> enablePlugin cfg then s
      else if Some uid = selfId host then s
      else if uid \<in> processedUsers s then s
      else
        (let targetVolume = (if isFriend host uid then friendVolume cfg else nonFriendVolume cfg);
             r = setUserVolume host uid targetVolume s
         in if fst r
            then (snd r)\<lparr>processedUsers := insert uid (processedUsers (snd r))\<rparr>
            else snd r))"

text \<open>
  The body of the callback scheduled by \<^verbatim>\<open>monitorAudioLevel\<close>, closed over \<open>uid\<close> and
  \<open>unmuteTime\<close>.
\<close>

definition autoUnmute ::
  "AutoMuterSettings \<Rightarrow> AutoMuterHost \<Rightarrow> string \<Rightarrow> real \<Rightarrow> AutoMuterState \<Rightarrow> AutoMuterState" where
  "autoUnmute cfg host uid unmuteTime s =
     (if mutedUsers s uid = Some unmuteTime
      then
        (let s1 = snd (setUserMuted host uid False s);
             s2 = s1\<lparr>mutedUsers := (mutedUsers s1)(uid := None)\<rparr>
         in processUser cfg host uid s2)
      else s)"

fun fire :: "AutoMuterSettings \<Rightarrow> AutoMuterHost \<Rightarrow> Callback \<Rightarrow> AutoMuterState \<Rightarrow> AutoMuterState" where
  "fire cfg host (AutoUnmute uid unmuteTime) s = autoUnmute cfg host uid unmuteTime s"

text \<open>\<^verbatim>\<open>monitorAudioLevel\<close>; \<open>now\<close> is the reading of \<^verbatim>\<open>Date.now()\<close>.\<close>

definition monitorAudioLevel ::
  "AutoMuterSettings \<Rightarrow> AutoMuterHost \<Rightarrow> real \<Rightarrow> string \<Rightarrow> real
     \<Rightarrow> AutoMuterState \<Rightarrow> AutoMuterState" where
  "monitorAudioLevel cfg host now uid audioLevel s =
     (if \<not> enableNoiseDetection cfg then s
      else if Some uid = selfId host then s
      else
        (let pushed = (case audioLevels s uid of None \<Rightarrow> [] | Some l \<Rightarrow> l) @ [audioLevel];
             levels = (if length pushed > 10 then tl pushed else pushed);
             s1 = s\<lparr>audioLevels := (audioLevels s)(uid \<mapsto> levels)\<rparr>
         in if length levels \<ge> 5
            then
              (let avgLevel = foldl (+) 0 levels / real (length levels);
                   threshold = noiseThreshold cfg
               in if avgLevel > threshold \<and> mutedUsers s1 uid = None
                  then
                    (let r = setUserMuted host uid True s1
                     in if fst r
                        then
                          (let unmuteTime = now + muteDuration cfg * 1000
                           in (snd r)\<lparr>mutedUsers := (mutedUsers (snd r))(uid \<mapsto> unmuteTime),
                                       timeouts := timeouts (snd r)
                                         @ [(muteDuration cfg * 1000, AutoUnmute uid unmuteTime)]\<rparr>)
                        else snd r)
                  else s1)
            else s1))"

text \<open>
  \<^verbatim>\<open>cleanupExpiredMutes\<close>, run every five seconds: every user whose unmute time has
  come is dropped from \<^verbatim>\<open>mutedUsers\<close> and from \<^verbatim>\<open>audioLevels\<close>.
\<close>

definition expired :: "real \<Rightarrow> AutoMuterState \<Rightarrow> string \<Rightarrow> bool" where
  "expired now s uid = (case mutedUsers s uid of None \<Rightarrow> False | Some unmuteTime \<Rightarrow> now \<ge> unmuteTime)"

definition cleanupExpiredMutes :: "real \<Rightarrow> AutoMuterState \<Rightarrow> AutoMuterState" where
  "cleanupExpiredMutes now s =
     s\<lparr>mutedUsers := (\<lambda>uid. if expired now s uid then None else mutedUsers s uid),
       audioLevels := (\<lambda>uid. if expired now s uid then None else audioLevels s uid)\<rparr>"

text \<open>A sequence of \<^verbatim>\<open>monitorAudioLevel\<close> calls: clock reading, user and level of each.\<close>

fun monitorAll ::
  "AutoMuterSettings \<Rightarrow> AutoMuterHost \<Rightarrow> (real \<times> string \<times> real) list
     \<Rightarrow> AutoMuterState \<Rightarrow> AutoMuterState" where
  "monitorAll cfg host [] s = s"
| "monitorAll cfg host ((now, uid, audioLevel) # calls) s =
     monitorAll cfg host calls (monitorAudioLevel cfg host now uid audioLevel s)"

definition initialAutoMuter :: AutoMuterState where
  "initialAutoMuter =
     \<lparr>processedUsers = {}, mutedUsers = Map.empty, audioLevels = Map.empty,
      localVolume = Map.empty, timeouts = []\<rparr>"


section \<open>VoiceChannelLogger\<close>

text \<open>
  The settings that the logging reads. \<^verbatim>\<open>maxLogEntries\<close> is a number setting, taken
  here at integer values.
\<close>

record VclSettings =
  enableFileLogging :: bool
  trackSessionDuration :: bool
  maxLogEntries :: int
  logOwnActions :: bool
  onlyLogJoins :: bool
  userFilter :: string
  showToastNotifications :: bool
  suppressToastsForExistingUsers :: bool

datatype Action = Join | Leave

text \<open>
  The log entry, without the fields kept for display only (avatar hash and URL,
  discriminator, \<^verbatim>\<open>userData\<close>). Times are readings of \<^verbatim>\<open>Date.now()\<close>, in milliseconds.
\<close>

record LogEntry =
  le_timestamp :: int
  le_userId :: string
  le_username :: string
  le_globalName :: "string option"
  le_channelId :: "string option"
  le_channelName :: string
  le_guildId :: "string option"
  le_guildName :: "string option"
  le_action :: Action
  le_sessionDuration :: "int option"

record VoiceState =
  vs_userId :: string
  vs_channelId :: "string option"
  vs_oldChannelId :: "string option"

record HostUser =
  u_id :: string
  u_username :: string
  u_globalName :: "string option"

record HostChannel =
  c_name :: string
  c_guild_id :: "string option"

text \<open>
  The host stores the handler reads: the current user's id, the selected voice channel,
  users, channels, the name of a guild, the users in a voice channel
  (\<^verbatim>\<open>Object.keys\<close> of the voice states), and whether \<^verbatim>\<open>DataStore.update\<close> succeeds.
  \<open>trim\<close> is \<^verbatim>\<open>String.prototype.trim\<close> of the host's JavaScript engine, which strips the
  white space and the line terminators of Unicode.
\<close>

record VclHost =
  getCurrentUser :: "string option"
  getVoiceChannelId :: "string option"
  getUser :: "string \<Rightarrow> HostUser option"
  getChannel :: "string \<Rightarrow> HostChannel option"
  getGuildName :: "string \<Rightarrow> string option"
  getVoiceStatesForChannel :: "string \<Rightarrow> string list option"
  dataStoreUpdates :: bool
  trim :: "string \<Rightarrow> string"

text \<open>
  The plugin's variables, the list kept in the DataStore under \<^verbatim>\<open>LOG_KEY\<close> (\<open>None\<close>
  while the key is absent) and the toasts shown so far, oldest first.
\<close>

record VclState =
  lastUserChannelId :: "string option"
  suppressToastsUntil :: int
  pluginInitialized :: bool
  initializationSuppressUntil :: int
  initializationStartTime :: int
  processedUsersDuringInit :: "string set"
  userSessions :: "string \<rightharpoonup> int"
  storedLogs :: "LogEntry list option"
  toasts :: "LogEntry list"

definition TOAST_SUPPRESSION_DURATION :: int where
  "TOAST_SUPPRESSION_DURATION = 2000"

definition INITIALIZATION_SUPPRESSION_DURATION :: int where
  "INITIALIZATION_SUPPRESSION_DURATION = 5000"

text \<open>
  The updater that \<^verbatim>\<open>saveLogEntry\<close> hands to \<^verbatim>\<open>DataStore.update\<close>: \<^verbatim>\<open>unshift\<close>, then
  the cut to \<^verbatim>\<open>maxLogEntries\<close>. The save is asynchronous in the source, and
  \<^verbatim>\<open>DataStore.update\<close> runs the updates one after the other; the model applies each at
  once. A failing update is caught and logged, and stores nothing.
\<close>

definition updateLogs :: "VclSettings \<Rightarrow> LogEntry \<Rightarrow> LogEntry list option \<Rightarrow> LogEntry list" where
  "updateLogs cfg entry stored =
     (let logs = entry # (case stored of None \<Rightarrow> [] | Some l \<Rightarrow> l);
          maxEntries = maxLogEntries cfg
      in if maxEntries > 0 \<and> int (length logs) > maxEntries
         then take (nat maxEntries) logs
         else logs)"

definition saveLogEntry :: "VclSettings \<Rightarrow> VclHost \<Rightarrow> LogEntry \<Rightarrow> VclState \<Rightarrow> VclState" where
  "saveLogEntry cfg host entry s =
     (if \<not> enableFileLogging cfg then s
      else if dataStoreUpdates host
           then s\<lparr>storedLogs := Some (updateLogs cfg entry (storedLogs s))\<rparr>
           else s)"

definition showToastNotification :: "LogEntry \<Rightarrow> VclState \<Rightarrow> VclState" where
  "showToastNotification entry s = s\<lparr>toasts := toasts s @ [entry]\<rparr>"

definition logVoiceEvent :: "VclSettings \<Rightarrow> VclHost \<Rightarrow> LogEntry \<Rightarrow> bool \<Rightarrow> VclState \<Rightarrow> VclState" where
  "logVoiceEvent cfg host entry suppressToast s =
     (let s1 = (if enableFileLogging cfg then saveLogEntry cfg host entry s else s)
      in if showToastNotifications cfg \<and> \<not> suppressToast
         then showToastNotification entry s1
         else s1)"

text \<open>A sequence of \<^verbatim>\<open>saveLogEntry\<close> calls.\<close>

fun saveLogEntries :: "VclSettings \<Rightarrow> VclHost \<Rightarrow> LogEntry list \<Rightarrow> VclState \<Rightarrow> VclState" where
  "saveLogEntries cfg host [] s = s"
| "saveLogEntries cfg host (entry # entries) s =
     saveLogEntries cfg host entries (saveLogEntry cfg host entry s)"

subsection \<open>Strings and truthiness\<close>

definition truthy :: "string option \<Rightarrow> bool" where
  "truthy x = (case x of None \<Rightarrow> False | Some str \<Rightarrow> str \<noteq> [])"

fun split :: "char \<Rightarrow> string \<Rightarrow> string list" where
  "split sep [] = [[]]"
| "split sep (c # cs) =
     (if c = sep then [] # split sep cs
      else (case split sep cs of [] \<Rightarrow> [[c]] | w # ws \<Rightarrow> (c # w) # ws))"

definition slice_last4 :: "string \<Rightarrow> string" where
  "slice_last4 str = drop (length str - 4) str"

subsection \<open>The handler of VOICE_STATE_UPDATES\<close>

text \<open>
  Every call of \<^verbatim>\<open>Date.now()\<close> gets its own reading: four in the part of the handler
  before the loop, four in an iteration of the loop.
\<close>

record StartClock =
  t_initStart :: int
  t_initUntil :: int
  t_switch :: int
  t_cleanup :: int

record EventClock =
  t_check :: int
  t_session :: int
  t_entry :: int
  t_toast :: int

datatype Outcome = Skipped | Logged LogEntry bool

text \<open>The block "Handle plugin initialization and Discord restarts".\<close>

definition initialize :: "VclSettings \<Rightarrow> VclHost \<Rightarrow> StartClock \<Rightarrow> VclState \<Rightarrow> VclState" where
  "initialize cfg host clk s =
     (case getVoiceChannelId host of
        None \<Rightarrow> s
      | Some myChannelId \<Rightarrow>
          if \<not> pluginInitialized s \<and> myChannelId \<noteq> [] \<and> getCurrentUser host \<noteq> None
          then
            (let s1 = s\<lparr>pluginInitialized := True,
                        lastUserChannelId := Some myChannelId,
                        initializationStartTime := t_initStart clk,
                        processedUsersDuringInit := {}\<rparr>
             in if suppressToastsForExistingUsers cfg
                then s1\<lparr>initializationSuppressUntil :=
                          t_initUntil clk + INITIALIZATION_SUPPRESSION_DURATION,
                        processedUsersDuringInit :=
                          (case getVoiceStatesForChannel host myChannelId of
                             None \<Rightarrow> {}
                           | Some uids \<Rightarrow> {uid \<in> set uids. Some uid \<noteq> getCurrentUser host})\<rparr>
                else s1)
          else s)"

text \<open>The block "Handle user channel switching with smart suppression".\<close>

definition channelSwitch ::
  "VclSettings \<Rightarrow> VclHost \<Rightarrow> StartClock \<Rightarrow> VoiceState option \<Rightarrow> VclState \<Rightarrow> VclState" where
  "channelSwitch cfg host clk myState s =
     (case myState of
        None \<Rightarrow> s
      | Some mine \<Rightarrow>
          if getCurrentUser host = None then s
          else
            (let newLast = (if truthy (vs_channelId mine) then vs_channelId mine else None)
             in if suppressToastsForExistingUsers cfg
                then
                  (let userJoinedNewChannel =
                         (truthy (vs_channelId mine) \<and> vs_channelId mine \<noteq> lastUserChannelId s);
                       s1 = (if userJoinedNewChannel \<and> pluginInitialized s
                             then s\<lparr>suppressToastsUntil := t_switch clk + TOAST_SUPPRESSION_DURATION\<rparr>
                             else s)
                   in s1\<lparr>lastUserChannelId := newLast\<rparr>)
                else
                  (let s1 = s\<lparr>lastUserChannelId := newLast\<rparr>
                   in if \<not> pluginInitialized s1
                      then s1\<lparr>pluginInitialized := True,
                              initializationStartTime := t_initStart clk,
                              processedUsersDuringInit := {}\<rparr>
                      else s1)))"

text \<open>The user filter of the loop: true when the event is to be dropped.\<close>

definition filteredOut :: "VclSettings \<Rightarrow> VclHost \<Rightarrow> string \<Rightarrow> bool" where
  "filteredOut cfg host uid =
     (userFilter cfg \<noteq> [] \<and> trim host (userFilter cfg) \<noteq> [] \<and>
      uid \<notin> set (map (trim host) (split (CHR '','') (userFilter cfg))))"

definition eventAction :: "string \<Rightarrow> VoiceState \<Rightarrow> Action option" where
  "eventAction myChannelId vs =
     (let joiningMyChannel = (vs_channelId vs = Some myChannelId);
          leavingMyChannel = (vs_oldChannelId vs = Some myChannelId)
      in if joiningMyChannel \<and> \<not> leavingMyChannel then Some Join
         else if leavingMyChannel \<and> \<not> joiningMyChannel then Some Leave
         else None)"

text \<open>
  The block "Session duration tracking": the duration for the entry and the updated
  plugin state. \<^verbatim>\<open>if (joinTime)\<close> is a truthiness test of a number.
\<close>

definition trackSession ::
  "VclSettings \<Rightarrow> Action \<Rightarrow> string \<Rightarrow> int \<Rightarrow> VclState \<Rightarrow> int option \<times> VclState" where
  "trackSession cfg act uid now s =
     (if trackSessionDuration cfg
      then
        (case act of
           Join \<Rightarrow> (None, s\<lparr>userSessions := (userSessions s)(uid \<mapsto> now)\<rparr>)
         | Leave \<Rightarrow>
             (case userSessions s uid of
                None \<Rightarrow> (None, s)
              | Some joinTime \<Rightarrow>
                  if joinTime \<noteq> 0
                  then (Some (now - joinTime), s\<lparr>userSessions := (userSessions s)(uid := None)\<rparr>)
                  else (None, s)))
      else (None, s))"

definition makeLogEntry ::
  "VclHost \<Rightarrow> VoiceState \<Rightarrow> Action \<Rightarrow> int option \<Rightarrow> int \<Rightarrow> LogEntry" where
  "makeLogEntry host vs act duration now =
     (let uid = vs_userId vs;
          user = (case getUser host uid of
                    Some u \<Rightarrow> u
                  | None \<Rightarrow> \<lparr>u_id = uid, u_username = ''User_'' @ slice_last4 uid,
                             u_globalName = None\<rparr>);
          relevantChannelId = (if truthy (vs_channelId vs) then vs_channelId vs
                               else vs_oldChannelId vs);
          channel = (case (case relevantChannelId of None \<Rightarrow> None | Some c \<Rightarrow> getChannel host c) of
                       Some ch \<Rightarrow> ch
                     | None \<Rightarrow>
                         \<lparr>c_name = ''Channel_'' @
                            (case relevantChannelId of
                               None \<Rightarrow> ''Unknown''
                             | Some c \<Rightarrow> if slice_last4 c = [] then ''Unknown'' else slice_last4 c),
                          c_guild_id = None\<rparr>);
          guildName = (case c_guild_id channel of
                         None \<Rightarrow> None
                       | Some g \<Rightarrow> if g = [] then None else getGuildName host g)
      in \<lparr>le_timestamp = now,
          le_userId = u_id user,
          le_username = u_username user,
          le_globalName = u_globalName user,
          le_channelId = relevantChannelId,
          le_channelName = (if c_name channel = [] then ''Unknown Channel'' else c_name channel),
          le_guildId = c_guild_id channel,
          le_guildName = guildName,
          le_action = act,
          le_sessionDuration = duration\<rparr>)"

text \<open>The lines "Determine toast suppression".\<close>

definition shouldSuppressToast :: "VclSettings \<Rightarrow> bool \<Rightarrow> bool \<Rightarrow> Action \<Rightarrow> bool" where
  "shouldSuppressToast cfg isInNormalSuppression isInInitializationSuppression act =
     (suppressToastsForExistingUsers cfg \<and>
      (isInNormalSuppression \<or> isInInitializationSuppression) \<and> act = Join)"

text \<open>One iteration of the loop over the voice states.\<close>

definition processVoiceState ::
  "VclSettings \<Rightarrow> VclHost \<Rightarrow> string \<Rightarrow> EventClock \<Rightarrow> VoiceState \<Rightarrow> VclState
     \<Rightarrow> Outcome \<times> VclState" where
  "processVoiceState cfg host myChannelId clk vs s =
     (let uid = vs_userId vs
      in if uid = [] then (Skipped, s)
         else if Some uid = getCurrentUser host \<and> \<not> logOwnActions cfg then (Skipped, s)
         else if filteredOut cfg host uid then (Skipped, s)
         else
           (case eventAction myChannelId vs of
              None \<Rightarrow> (Skipped, s)
            | Some act \<Rightarrow>
                if onlyLogJoins cfg \<and> act = Leave then (Skipped, s)
                else
                  (let isInInitializationSuppression = (t_check clk < initializationSuppressUntil s)
                   in if isInInitializationSuppression \<and> act = Join \<and> uid \<in> processedUsersDuringInit s
                      then (Skipped, s)
                      else
                        (let s1 = (if isInInitializationSuppression \<and> act = Join
                                   then s\<lparr>processedUsersDuringInit := insert uid (processedUsersDuringInit s)\<rparr>
                                   else s);
                             tracked = trackSession cfg act uid (t_session clk) s1;
                             logEntry = makeLogEntry host vs act (fst tracked) (t_entry clk);
                             isInNormalSuppression = (t_toast clk < suppressToastsUntil (snd tracked));
                             suppress = shouldSuppressToast cfg isInNormalSuppression
                                          isInInitializationSuppression act
                         in (Logged logEntry suppress,
                             logVoiceEvent cfg host logEntry suppress (snd tracked))))))"

fun processVoiceStates ::
  "VclSettings \<Rightarrow> VclHost \<Rightarrow> string \<Rightarrow> (VoiceState \<times> EventClock) list \<Rightarrow> VclState
     \<Rightarrow> Outcome list \<times> VclState" where
  "processVoiceStates cfg host myChannelId [] s = ([], s)"
| "processVoiceStates cfg host myChannelId ((vs, clk) # rest) s =
     (let r = processVoiceState cfg host myChannelId clk vs s;
          rs = processVoiceStates cfg host myChannelId rest (snd r)
      in (fst r # fst rs, snd rs))"

definition VOICE_STATE_UPDATES ::
  "VclSettings \<Rightarrow> VclHost \<Rightarrow> StartClock \<Rightarrow> (VoiceState \<times> EventClock) list \<Rightarrow> VclState
     \<Rightarrow> Outcome list \<times> VclState" where
  "VOICE_STATE_UPDATES cfg host clk voiceStates s =
     (if voiceStates = [] then ([], s)
      else
        (let myState = find (\<lambda>vs. Some (vs_userId vs) = getCurrentUser host) (map fst voiceStates);
             s1 = initialize cfg host clk s;
             s2 = channelSwitch cfg host clk myState s1
         in case getVoiceChannelId host of
              None \<Rightarrow> ([], s2)
            | Some myChannelId \<Rightarrow>
                if getCurrentUser host = None \<or> myChannelId = [] then ([], s2)
                else
                  (let s3 = (if t_cleanup clk > initializationSuppressUntil s2
                                \<and> processedUsersDuringInit s2 \<noteq> {}
                             then s2\<lparr>processedUsersDuringInit := {}\<rparr>
                             else s2)
                   in processVoiceStates cfg host myChannelId voiceStates s3)))"

definition resetPluginState :: "VclState \<Rightarrow> VclState" where
  "resetPluginState s =
     s\<lparr>pluginInitialized := False,
       lastUserChannelId := None,
       suppressToastsUntil := 0,
       initializationSuppressUntil := 0,
       processedUsersDuringInit := {},
       initializationStartTime := 0,
       userSessions := Map.empty\<rparr>"

section \<open>Auxiliary notions and example values\<close>

text \<open>
  The store of a fresh \<^verbatim>\<open>MessageStorage\<close> when localStorage holds nothing, and a logged
  message with a given id and content.
\<close>

definition emptyStorage :: "UserLogs MessageStorage" where
  "emptyStorage = \<lparr>storage = Map.empty, localStorage = None\<rparr>"

definition sampleMessage :: "string \<Rightarrow> string \<Rightarrow> LoggedMessage" where
  "sampleMessage i txt =
     \<lparr>lm_id = i, lm_content = txt, lm_timestamp = ''2024-01-01T00:00:00.000Z'',
      lm_author = \<lparr>la_id = ''42'', la_username = ''ann'', la_globalName = None, la_avatar = None\<rparr>,
      lm_attachments = [], lm_embeds = [], lm_sticker_items = [],
      lm_channel_id = ''7'', lm_guild_id = None, lm_edited_timestamp = None,
      lm_deleted = Some False, lm_deleted_timestamp = None\<rparr>"

text \<open>
  A store for the import, and a host parser as far as the examples need it: the text
  \<^verbatim>\<open>5\<close> is the number 5, the text \<^verbatim>\<open>[[1,null]]\<close> is an array with one entry, and
  the text \<^verbatim>\<open>[1,\<close> is not JSON.
\<close>

definition emptyImportStore :: "js_map MessageStorage" where
  "emptyImportStore = \<lparr>storage = [], localStorage = None\<rparr>"

definition parseExample :: "string \<Rightarrow> js_error + json" where
  "parseExample txt =
     (if txt = ''5'' then Inr (JNumber 5)
      else if txt = ''[[1,null]]'' then Inr (JArray [JArray [JNumber 1, JNull]])
      else Inl SyntaxError)"











definition defaultAutoMuterSettings :: AutoMuterSettings where
  "defaultAutoMuterSettings =
     \<lparr>enablePlugin = True, friendVolume = 75, nonFriendVolume = 50,
      enableNoiseDetection = True, noiseThreshold = 80, muteDuration = 5\<rparr>"

definition workingHost :: AutoMuterHost where
  "workingHost =
     \<lparr>selfId = Some ''me'', getRelationshipType = (\<lambda>uid. 0),
      hasAudioConvert = True, hasMediaEngine = True, setLocalVolumeThrows = False,
      getLocalVolume = (\<lambda>volumes uid. volumes uid)\<rparr>"

text \<open>Five loud samples of user \<^verbatim>\<open>u\<close>, read at the times 1000 to 1004.\<close>

definition loudCalls :: "(real \<times> string \<times> real) list" where
  "loudCalls = [(1000, ''u'', 90), (1001, ''u'', 90), (1002, ''u'', 90), (1003, ''u'', 90),
                (1004, ''u'', 90)]"

definition loudState :: AutoMuterState where
  "loudState = monitorAll defaultAutoMuterSettings workingHost loudCalls initialAutoMuter"

text \<open>
  The persisted log as a list (empty while the key is absent), the default settings of
  VoiceChannelLogger and the same with \<^verbatim>\<open>maxLogEntries\<close> 0, a host in which the current
  user \<^verbatim>\<open>me\<close> sits in voice channel \<^verbatim>\<open>c1\<close> and no store knows a user or a channel,
  the plugin's state after \<^verbatim>\<open>start()\<close>, and a log entry. The \<open>trim\<close> of that host is
  \<^verbatim>\<open>String.prototype.trim\<close> on strings whose code units are below 256: among those the
  white space and the line terminators are 0x09 to 0x0D, 0x20 and 0xA0.
\<close>

definition trimLatin1 :: "string \<Rightarrow> string" where
  "trimLatin1 str =
     (let blank = (\<lambda>c. c \<in> set [CHR 0x09, CHR 0x0A, CHR 0x0B, CHR 0x0C, CHR 0x0D, CHR 0x20, CHR 0xA0])
      in rev (dropWhile blank (rev (dropWhile blank str))))"

definition logsOf :: "VclState \<Rightarrow> LogEntry list" where
  "logsOf s = (case storedLogs s of None \<Rightarrow> [] | Some l \<Rightarrow> l)"

definition defaultVclSettings :: VclSettings where
  "defaultVclSettings =
     \<lparr>enableFileLogging = True, trackSessionDuration = True, maxLogEntries = 1000,
      logOwnActions = False, onlyLogJoins = False, userFilter = [],
      showToastNotifications = True, suppressToastsForExistingUsers = True\<rparr>"

definition unlimitedVclSettings :: VclSettings where
  "unlimitedVclSettings = defaultVclSettings\<lparr>maxLogEntries := 0\<rparr>"

definition vclHost :: VclHost where
  "vclHost =
     \<lparr>getCurrentUser = Some ''me'', getVoiceChannelId = Some ''c1'',
      getUser = (\<lambda>uid. None), getChannel = (\<lambda>c. None), getGuildName = (\<lambda>g. None),
      getVoiceStatesForChannel = (\<lambda>c. Some [''me'']), dataStoreUpdates = True,
      trim = trimLatin1\<rparr>"

definition startedVcl :: VclState where
  "startedVcl =
     \<lparr>lastUserChannelId = None, suppressToastsUntil = 0, pluginInitialized = False,
      initializationSuppressUntil = 0, initializationStartTime = 0,
      processedUsersDuringInit = {}, userSessions = Map.empty,
      storedLogs = None, toasts = []\<rparr>"

definition sampleEntry :: "int \<Rightarrow> LogEntry" where
  "sampleEntry t =
     \<lparr>le_timestamp = t, le_userId = ''u'', le_username = ''User_u'', le_globalName = None,
      le_channelId = Some ''c1'', le_channelName = ''Channel_c1'', le_guildId = None,
      le_guildName = None, le_action = Join, le_sessionDuration = None\<rparr>"

text \<open>
  The voice state of a user who joins a channel and of one who leaves it, and clocks
  whose readings are all \<open>t\<close>.
\<close>

definition joinOf :: "string \<Rightarrow> string \<Rightarrow> VoiceState" where
  "joinOf uid c = \<lparr>vs_userId = uid, vs_channelId = Some c, vs_oldChannelId = None\<rparr>"

definition leaveOf :: "string \<Rightarrow> string \<Rightarrow> VoiceState" where
  "leaveOf uid c = \<lparr>vs_userId = uid, vs_channelId = None, vs_oldChannelId = Some c\<rparr>"

definition atTime :: "int \<Rightarrow> EventClock" where
  "atTime t = \<lparr>t_check = t, t_session = t, t_entry = t, t_toast = t\<rparr>"

definition startAt :: "int \<Rightarrow> StartClock" where
  "startAt t = \<lparr>t_initStart = t, t_initUntil = t, t_switch = t, t_cleanup = t\<rparr>"

text \<open>
  The state after the first run of the handler, at time 1000, on the current user's own
  state; then user \<^verbatim>\<open>u\<close> joins at 2000.
\<close>

definition initializedVcl :: VclState where
  "initializedVcl =
     snd (VOICE_STATE_UPDATES defaultVclSettings vclHost (startAt 1000)
            [(joinOf ''me'' ''c1'', atTime 1000)] startedVcl)"



text \<open>The toast that an outcome of the loop stands for, if any.\<close>

fun toastOf :: "VclSettings \<Rightarrow> Outcome \<Rightarrow> LogEntry list" where
  "toastOf cfg Skipped = []"
| "toastOf cfg (Logged entry suppressToast) =
     (if showToastNotifications cfg \<and> \<not> suppressToast then [entry] else [])"

text \<open>
  What an iteration of the loop asks of an event before it looks at the clock: a user id,
  not the current user's unless \<^verbatim>\<open>logOwnActions\<close> is on, that passes the user filter.
  \<open>joins c\<close> and \<open>leaves c\<close> say that the event is a join into, or a leave from, the voice
  channel \<open>c\<close> of the current user.
\<close>

definition passesFilters :: "VclSettings \<Rightarrow> VclHost \<Rightarrow> VoiceState \<Rightarrow> bool" where
  "passesFilters cfg host vs =
     (vs_userId vs \<noteq> [] \<and>
      (Some (vs_userId vs) \<noteq> getCurrentUser host \<or> logOwnActions cfg) \<and>
      \<not> filteredOut cfg host (vs_userId vs))"

definition joins :: "string \<Rightarrow> VoiceState \<Rightarrow> bool" where
  "joins c vs = (vs_channelId vs = Some c \<and> vs_oldChannelId vs \<noteq> Some c)"

definition leaves :: "string \<Rightarrow> VoiceState \<Rightarrow> bool" where
  "leaves c vs = (vs_oldChannelId vs = Some c \<and> vs_channelId vs \<noteq> Some c)"



text \<open>
  A run of the handler: the host stores as they are when it runs, the clock readings of
  its first part, and the batch of voice states with the clock readings of their
  iterations. \<open>handlerRuns\<close> runs the handler on a history of such runs, oldest first.
\<close>

type_synonym Run = "VclHost \<times> StartClock \<times> (VoiceState \<times> EventClock) list"

fun handlerRuns :: "VclSettings \<Rightarrow> Run list \<Rightarrow> VclState \<Rightarrow> VclState" where
  "handlerRuns cfg [] s = s"
| "handlerRuns cfg ((host, clk, voiceStates) # rest) s =
     handlerRuns cfg rest (snd (VOICE_STATE_UPDATES cfg host clk voiceStates s))"

text \<open>
  The two windows of C4, told from the history of runs and not from the plugin's
  variables. \<open>startupFrom\<close> is the clock reading of the initialization: the first run
  since the reset with a batch that is not empty, a current user and a voice channel.
  \<open>switchFrom\<close> is the clock reading of the latest switch of the current user into a new
  voice channel: a run, the initializing one or a later one, whose batch holds a voice
  state of the current user with a channel other than \<open>knownChannel\<close>, the channel the
  current user was last seen in. A window that was never opened ends at clock reading 0.
\<close>

record Windows =
  startupFrom :: "int option"
  switchFrom :: "int option"
  knownChannel :: "string option"

definition noWindows :: Windows where
  "noWindows = \<lparr>startupFrom = None, switchFrom = None, knownChannel = None\<rparr>"

definition observe :: "Run \<Rightarrow> Windows \<Rightarrow> Windows" where
  "observe run w =
     (case run of (host, clk, voiceStates) \<Rightarrow>
        if voiceStates = [] then w
        else
          (let w1 = (if startupFrom w = None \<and> truthy (getVoiceChannelId host) \<and>
                        getCurrentUser host \<noteq> None
                     then w\<lparr>startupFrom := Some (t_initUntil clk),
                            knownChannel := getVoiceChannelId host\<rparr>
                     else w)
           in case find (\<lambda>vs. Some (vs_userId vs) = getCurrentUser host) (map fst voiceStates) of
                None \<Rightarrow> w1
              | Some mine \<Rightarrow>
                  if truthy (vs_channelId mine)
                  then (if vs_channelId mine \<noteq> knownChannel w1 \<and> startupFrom w1 \<noteq> None
                        then w1\<lparr>switchFrom := Some (t_switch clk), knownChannel := vs_channelId mine\<rparr>
                        else w1\<lparr>knownChannel := vs_channelId mine\<rparr>)
                  else w1\<lparr>knownChannel := None\<rparr>))"

fun observeAll :: "Run list \<Rightarrow> Windows \<Rightarrow> Windows" where
  "observeAll [] w = w"
| "observeAll (run # rest) w = observeAll rest (observe run w)"

definition startupWindowEnd :: "Windows \<Rightarrow> int" where
  "startupWindowEnd w = (case startupFrom w of None \<Rightarrow> 0 | Some t \<Rightarrow> t + 5000)"

definition switchWindowEnd :: "Windows \<Rightarrow> int" where
  "switchWindowEnd w = (case switchFrom w of None \<Rightarrow> 0 | Some t \<Rightarrow> t + 2000)"

text \<open>
  The events of a batch that get a toast, for windows that end at \<open>startupEnd\<close> and
  \<open>switchEnd\<close>: the joins outside both windows and the leaves, among the events that
  pass the filters, when \<^verbatim>\<open>showToastNotifications\<close> is on.
\<close>

definition announced ::
  "VclSettings \<Rightarrow> VclHost \<Rightarrow> string \<Rightarrow> int \<Rightarrow> int \<Rightarrow> VoiceState \<times> EventClock \<Rightarrow> bool" where
  "announced cfg host c startupEnd switchEnd ev =
     (case ev of (vs, clk) \<Rightarrow>
        showToastNotifications cfg \<and> passesFilters cfg host vs \<and>
        ((joins c vs \<and> startupEnd \<le> t_check clk \<and> switchEnd \<le> t_toast clk) \<or>
         (leaves c vs \<and> \<not> onlyLogJoins cfg)))"

text \<open>
  The default settings with \<^verbatim>\<open>onlyLogJoins\<close> on; the host after the current user has
  moved to voice channel \<^verbatim>\<open>c2\<close>; a voice state of a user who stays in a channel; and a
  history: the initialization at 1000 in \<^verbatim>\<open>c1\<close>, the current user's switch to \<^verbatim>\<open>c2\<close>
  at 8000, and an update of the current user's own state in \<^verbatim>\<open>c2\<close> at 9000.
\<close>

definition joinsOnlyVclSettings :: VclSettings where
  "joinsOnlyVclSettings = defaultVclSettings\<lparr>onlyLogJoins := True\<rparr>"

definition vclHost2 :: VclHost where
  "vclHost2 = vclHost\<lparr>getVoiceChannelId := Some ''c2''\<rparr>"

definition stayOf :: "string \<Rightarrow> string \<Rightarrow> VoiceState" where
  "stayOf uid c = \<lparr>vs_userId = uid, vs_channelId = Some c, vs_oldChannelId = Some c\<rparr>"

definition firstRun :: Run where
  "firstRun = (vclHost, startAt 1000, [(joinOf ''me'' ''c1'', atTime 1000)])"

definition switchRun :: Run where
  "switchRun =
     (vclHost2, startAt 8000,
      [(\<lparr>vs_userId = ''me'', vs_channelId = Some ''c2'', vs_oldChannelId = Some ''c1''\<rparr>, atTime 8000),
       (joinOf ''w'' ''c2'', atTime 8500)])"

definition ownUpdateRun :: Run where
  "ownUpdateRun = (vclHost2, startAt 9000, [(stayOf ''me'' ''c2'', atTime 9000)])"

text \<open>
  \<open>tracks w s\<close>: the plugin's variables agree with the windows told from the history.
\<close>

definition tracks :: "Windows \<Rightarrow> VclState \<Rightarrow> bool" where
  "tracks w s =
     (pluginInitialized s = (startupFrom w \<noteq> None) \<and>
      initializationSuppressUntil s = startupWindowEnd w \<and>
      suppressToastsUntil s = switchWindowEnd w \<and>
      lastUserChannelId s = knownChannel w)"

text \<open>
  A later run at 10500, in which user \<^verbatim>\<open>x\<close> joins \<^verbatim>\<open>c2\<close> and user \<^verbatim>\<open>w\<close> leaves it; the
  log entry of a user for an event in \<^verbatim>\<open>c2\<close> when no store knows the user or the channel;
  and the state after the first three runs of the history.
\<close>

definition laterRun :: Run where
  "laterRun =
     (vclHost2, startAt 10500,
      [(joinOf ''x'' ''c2'', atTime 10500), (leaveOf ''w'' ''c2'', atTime 10600)])"

definition entryIn2 :: "string \<Rightarrow> Action \<Rightarrow> int option \<Rightarrow> int \<Rightarrow> LogEntry" where
  "entryIn2 uid act duration t =
     \<lparr>le_timestamp = t, le_userId = uid, le_username = ''User_'' @ uid, le_globalName = None,
      le_channelId = Some ''c2'', le_channelName = ''Channel_c2'', le_guildId = None,
      le_guildName = None, le_action = act, le_sessionDuration = duration\<rparr>"

definition switchedVcl :: VclState where
  "switchedVcl =
     \<lparr>lastUserChannelId = Some ''c2'', suppressToastsUntil = 10000, pluginInitialized = True,
      initializationSuppressUntil = 6000, initializationStartTime = 1000,
      processedUsersDuringInit = {}, userSessions = [''w'' \<mapsto> 8500],
      storedLogs = Some [entryIn2 ''w'' Join None 8500], toasts = []\<rparr>"

section \<open>Properties of the message store\<close>

lemma findIndex_ge: "findIndex p xs \<ge> -1"
  by (induction xs) (auto simp: Let_def)

lemma findIndex_none: "findIndex p xs = -1 \<longleftrightarrow> (\<forall>x\<in>set xs. \<not> p x)"
proof (induction xs)
  case Nil
  then show ?case by simp
next
  case (Cons x xs)
  have "findIndex p xs + 1 \<noteq> -1" using findIndex_ge[of p xs] by linarith
  with Cons show ?case by (simp add: Let_def)
qed

lemma findIndex_some:
  "findIndex p xs \<noteq> -1 \<Longrightarrow> nat (findIndex p xs) < length xs \<and> p (xs ! nat (findIndex p xs))
     \<and> (\<forall>j < nat (findIndex p xs). \<not> p (xs ! j))"
proof (induction xs)
  case Nil
  then show ?case by simp
next
  case (Cons x xs)
  show ?case
  proof (cases "p x")
    case True
    then show ?thesis by simp
  next
    case False
    with Cons.prems have ne: "findIndex p xs \<noteq> -1" by (auto simp: Let_def split: if_splits)
    have ge: "findIndex p xs \<ge> 0" using findIndex_ge[of p xs] ne by linarith
    have eq: "nat (findIndex p (x # xs)) = Suc (nat (findIndex p xs))"
      using False ne ge by (simp add: Let_def nat_add_distrib)
    from Cons.IH[OF ne] show ?thesis
      unfolding eq using False by (auto simp: less_Suc_eq_0_disj)
  qed
qed

lemma findIndex_unique:
  assumes "distinct (map f xs)" "i < length xs" "f (xs ! i) = k"
  shows "findIndex (\<lambda>x. f x = k) xs = int i"
proof -
  let ?j = "findIndex (\<lambda>x. f x = k) xs"
  have "\<exists>x\<in>set xs. f x = k" using assms(2,3) by (metis nth_mem)
  then have ne: "?j \<noteq> -1" by (simp add: findIndex_none)
  from findIndex_some[OF ne] have j: "nat ?j < length xs" "f (xs ! nat ?j) = k" by auto
  have "map f xs ! nat ?j = map f xs ! i" using j assms by simp
  moreover have "nat ?j < length (map f xs)" "i < length (map f xs)" using j(1) assms(2) by simp_all
  ultimately have "nat ?j = i" using assms(1) nth_eq_iff_index_eq[of "map f xs" "nat ?j" i] by blast
  moreover have "?j \<ge> 0" using findIndex_ge[of "\<lambda>x. f x = k" xs] ne by linarith
  ultimately show ?thesis by simp
qed

lemma getMessages_empty: "getMessages emptyStorage u = []"
  by (simp add: getMessages_def emptyStorage_def)

lemma getMessages_addMessage_same:
  "getMessages (addMessage ser now uid m st) uid =
     (let old = getMessages st uid;
          i = findIndex (\<lambda>x. lm_id x = lm_id m) old;
          inserted = (if i \<noteq> -1 then old[nat i := m] else m # old)
      in take maxMessagesPerUser inserted)"
  by (auto simp: getMessages_def addMessage_def saveToLocalStorage_def Let_def split: option.splits)

lemma getMessages_addMessage_other:
  "u \<noteq> uid \<Longrightarrow> getMessages (addMessage ser now uid m st) u = getMessages st u"
  by (auto simp: getMessages_def addMessage_def saveToLocalStorage_def Let_def split: option.splits)

lemma length_after_addMessage:
  "length (getMessages (addMessage ser now uid m st) uid) \<le> maxMessagesPerUser"
  by (simp add: getMessages_addMessage_same Let_def)

lemma bound_preserved:
  "length (getMessages st u) \<le> maxMessagesPerUser
     \<Longrightarrow> length (getMessages (addMessage ser now uid m st) u) \<le> maxMessagesPerUser"
  by (cases "u = uid") (simp_all add: length_after_addMessage getMessages_addMessage_other)

lemma bound_preserved_seq:
  "length (getMessages st u) \<le> maxMessagesPerUser
     \<Longrightarrow> length (getMessages (addMessages ser calls st) u) \<le> maxMessagesPerUser"
proof (induction calls arbitrary: st)
  case Nil
  then show ?case by simp
next
  case (Cons c calls)
  obtain now uid m where c: "c = (now, uid, m)" by (cases c) auto
  show ?case unfolding c by (simp add: Cons.IH bound_preserved Cons.prems)
qed

lemma bound_touched_seq:
  "u \<in> set (map (\<lambda>c. fst (snd c)) calls)
     \<Longrightarrow> length (getMessages (addMessages ser calls st) u) \<le> maxMessagesPerUser"
proof (induction calls arbitrary: st)
  case Nil
  then show ?case by simp
next
  case (Cons c calls)
  obtain now uid m where c: "c = (now, uid, m)" by (cases c) auto
  show ?case
  proof (cases "u = uid")
    case True
    then show ?thesis unfolding c
      by (simp add: bound_preserved_seq length_after_addMessage)
  next
    case False
    with Cons.prems c have "u \<in> set (map (\<lambda>c. fst (snd c)) calls)" by auto
    then show ?thesis unfolding c by (simp add: Cons.IH)
  qed
qed

text \<open>
  C1. The limit \<^verbatim>\<open>maxMessagesPerUser\<close> is 1000. After \<^verbatim>\<open>addMessage\<close> for a user, that
  user's list is the first 1000 entries of the list with the message put in (in place
  of the entry with the same id, or else at the front), so it has at most 1000 entries.
  After any sequence of \<^verbatim>\<open>addMessage\<close> calls, the list of a user has at most 1000
  entries if it had at most 1000 before the sequence or the user is the target of one
  of the calls; so it has, for every user, when the sequence starts from the empty
  store.
\<close>

theorem addMessage_bounded_retention:
  "maxMessagesPerUser = 1000 \<and>
   getMessages (addMessage ser now uid m st) uid =
     take 1000
       (if findIndex (\<lambda>x. lm_id x = lm_id m) (getMessages st uid) \<noteq> -1
        then (getMessages st uid)
               [nat (findIndex (\<lambda>x. lm_id x = lm_id m) (getMessages st uid)) := m]
        else m # getMessages st uid) \<and>
   length (getMessages (addMessage ser now uid m st) uid) \<le> 1000 \<and>
   (length (getMessages st u) \<le> 1000 \<or> u \<in> set (map (\<lambda>c. fst (snd c)) calls)
      \<longrightarrow> length (getMessages (addMessages ser calls st) u) \<le> 1000) \<and>
   length (getMessages (addMessages ser calls emptyStorage) u) \<le> 1000"
  using getMessages_addMessage_same[of ser now uid m st] length_after_addMessage[of ser now uid m st]
    bound_preserved_seq[of st u ser calls] bound_touched_seq[of u calls ser st]
    bound_preserved_seq[of emptyStorage u ser calls]
  by (auto simp: maxMessagesPerUser_def Let_def getMessages_empty)

theorem addMessage_bounded_retention_witness:
  "length (getMessages emptyStorage ''42'') \<le> 1000 \<and>
   getMessages (addMessage (\<lambda>logs. None) 5 ''42'' (sampleMessage ''m1'' ''hi'') emptyStorage) ''42''
     = [sampleMessage ''m1'' ''hi''] \<and>
   length (getMessages
     (addMessages (\<lambda>logs. None)
        [(5, ''42'', sampleMessage ''m1'' ''hi''), (6, ''42'', sampleMessage ''m2'' ''yo'')]
        emptyStorage) ''42'') \<le> 1000"
  using addMessage_bounded_retention
    [of "\<lambda>logs. None" 5 "''42''" "sampleMessage ''m1'' ''hi''" emptyStorage "''42''"
        "[(5, ''42'', sampleMessage ''m1'' ''hi''), (6, ''42'', sampleMessage ''m2'' ''yo'')]"]
  by (simp add: getMessages_empty)

lemma distinct_update_same_key:
  "distinct (map f xs) \<Longrightarrow> i < length xs \<Longrightarrow> f (xs ! i) = f y \<Longrightarrow> distinct (map f (xs[i := y]))"
  by (metis list_update_id map_update)

lemma distinct_step:
  assumes "distinct (map lm_id (getMessages st u))"
  shows "distinct (map lm_id (getMessages (addMessage ser now uid m st) u))"
proof (cases "u = uid")
  case False
  then show ?thesis using assms by (simp add: getMessages_addMessage_other)
next
  case True
  let ?old = "getMessages st uid"
  let ?i = "findIndex (\<lambda>x. lm_id x = lm_id m) ?old"
  have d: "distinct (map lm_id ?old)" using assms True by simp
  have "distinct (map lm_id (if ?i \<noteq> -1 then ?old[nat ?i := m] else m # ?old))"
  proof (cases "?i = -1")
    case True
    then have "\<forall>x\<in>set ?old. lm_id x \<noteq> lm_id m" by (simp add: findIndex_none)
    with d True show ?thesis by auto
  next
    case False
    from findIndex_some[OF False] d False show ?thesis
      by (simp add: distinct_update_same_key)
  qed
  then have "distinct (take maxMessagesPerUser (map lm_id (if ?i \<noteq> -1 then ?old[nat ?i := m] else m # ?old)))"
    by (rule distinct_take)
  then show ?thesis unfolding True getMessages_addMessage_same Let_def by (simp add: take_map)
qed

lemma distinct_seq:
  "distinct (map lm_id (getMessages st u))
     \<Longrightarrow> distinct (map lm_id (getMessages (addMessages ser calls st) u))"
proof (induction calls arbitrary: st)
  case Nil
  then show ?case by simp
next
  case (Cons c calls)
  obtain now uid m where c: "c = (now, uid, m)" by (cases c) auto
  show ?case unfolding c by (simp add: Cons.IH distinct_step Cons.prems)
qed

text \<open>
  C10. If the ids in a user's log are pairwise different, they are so after any
  sequence of \<^verbatim>\<open>addMessage\<close> calls. A message whose id is in the user's log at index
  \<open>i\<close> takes the place of that entry, at index \<open>i\<close>, and no entry is added; a message
  whose id is not in the log is put at the front. In both cases the list is then cut to
  its first 1000 entries. Starting from the empty store, the ids in every log are
  pairwise different after any sequence of calls.
\<close>

theorem addMessage_ids_unique:
  assumes "distinct (map lm_id (getMessages st u))"
  shows "distinct (map lm_id (getMessages (addMessages ser calls st) u)) \<and>
         (\<forall>i. i < length (getMessages st u) \<and> lm_id (getMessages st u ! i) = lm_id m
              \<longrightarrow> getMessages (addMessage ser now u m st) u
                     = take 1000 ((getMessages st u)[i := m])) \<and>
         ((\<forall>x\<in>set (getMessages st u). lm_id x \<noteq> lm_id m)
              \<longrightarrow> getMessages (addMessage ser now u m st) u = take 1000 (m # getMessages st u)) \<and>
         distinct (map lm_id (getMessages (addMessages ser calls emptyStorage) v))"
proof (intro conjI allI impI)
  show "distinct (map lm_id (getMessages (addMessages ser calls st) u))"
    using assms by (rule distinct_seq)
next
  have "distinct (map lm_id (getMessages emptyStorage v))" by (simp add: getMessages_empty)
  then show "distinct (map lm_id (getMessages (addMessages ser calls emptyStorage) v))"
    by (rule distinct_seq)
next
  fix i
  assume i: "i < length (getMessages st u) \<and> lm_id (getMessages st u ! i) = lm_id m"
  then have "findIndex (\<lambda>x. lm_id x = lm_id m) (getMessages st u) = int i"
    using findIndex_unique[OF assms, of i "lm_id m"] by simp
  then show "getMessages (addMessage ser now u m st) u = take 1000 ((getMessages st u)[i := m])"
    by (simp add: getMessages_addMessage_same maxMessagesPerUser_def Let_def)
next
  assume "\<forall>x\<in>set (getMessages st u). lm_id x \<noteq> lm_id m"
  then have "findIndex (\<lambda>x. lm_id x = lm_id m) (getMessages st u) = -1"
    by (simp add: findIndex_none)
  then show "getMessages (addMessage ser now u m st) u = take 1000 (m # getMessages st u)"
    by (simp add: getMessages_addMessage_same maxMessagesPerUser_def Let_def)
qed

lemma lm_id_sampleMessage: "lm_id (sampleMessage i txt) = i"
  by (simp add: sampleMessage_def)

lemma getMessages_two:
  "getMessages
     (addMessages (\<lambda>logs. None)
        [(5, ''42'', sampleMessage ''m1'' ''hi''), (6, ''42'', sampleMessage ''m2'' ''yo'')]
        emptyStorage) ''42''
   = [sampleMessage ''m2'' ''yo'', sampleMessage ''m1'' ''hi'']"
  by (simp add: getMessages_addMessage_same getMessages_empty Let_def lm_id_sampleMessage
      maxMessagesPerUser_def)

theorem addMessage_ids_unique_witness:
  "distinct (map lm_id [sampleMessage ''m2'' ''yo'', sampleMessage ''m1'' ''hi'']) \<and>
   getMessages
     (addMessage (\<lambda>logs. None) 7 ''42'' (sampleMessage ''m1'' ''edited'')
        (addMessages (\<lambda>logs. None)
           [(5, ''42'', sampleMessage ''m1'' ''hi''), (6, ''42'', sampleMessage ''m2'' ''yo'')]
           emptyStorage)) ''42''
   = [sampleMessage ''m2'' ''yo'', sampleMessage ''m1'' ''edited'']"
proof -
  let ?st = "addMessages (\<lambda>logs. None)
           [(5, ''42'', sampleMessage ''m1'' ''hi''), (6, ''42'', sampleMessage ''m2'' ''yo'')]
           emptyStorage"
  let ?m = "sampleMessage ''m1'' ''edited''"
  have d: "distinct (map lm_id (getMessages ?st ''42''))"
    unfolding getMessages_two by (simp add: lm_id_sampleMessage)
  have "1 < length (getMessages ?st ''42'') \<and> lm_id (getMessages ?st ''42'' ! 1) = lm_id ?m
          \<longrightarrow> getMessages (addMessage (\<lambda>logs. None) 7 ''42'' ?m ?st) ''42''
                = take 1000 ((getMessages ?st ''42'')[1 := ?m])"
    using addMessage_ids_unique[OF d, of "\<lambda>logs. None" "[]" ?m 7] by blast
  then have "getMessages (addMessage (\<lambda>logs. None) 7 ''42'' ?m ?st) ''42''
               = [sampleMessage ''m2'' ''yo'', ?m]"
    unfolding getMessages_two by (simp add: lm_id_sampleMessage)
  with d show ?thesis unfolding getMessages_two by simp
qed

section \<open>Properties of the import\<close>

lemma addEntries_succeeds:
  "(\<exists>m'. addEntries items m = Inr m') \<longleftrightarrow> list_all is_object items"
  by (induction items arbitrary: m) auto

lemma new_Map_succeeds:
  "(\<exists>m. new_Map data = Inr m) \<longleftrightarrow>
     (data = JNull \<or> data = JString [] \<or> (\<exists>items. data = JArray items \<and> list_all is_object items))"
  by (cases data) (auto simp: addEntries_succeeds)

lemma addEntries_error: "addEntries items m = Inl e \<Longrightarrow> e = TypeError"
  by (induction items arbitrary: m) (auto split: if_splits)

lemma new_Map_error: "new_Map data = Inl e \<Longrightarrow> e = TypeError"
  by (cases data) (auto simp: addEntries_error split: if_splits)

text \<open>
  C6, as the code has it. \<^verbatim>\<open>importData\<close> returns \<^verbatim>\<open>true\<close> exactly when the text parses
  as JSON and the \<^verbatim>\<open>Map\<close> constructor accepts the parsed value, that is, when the value
  is \<^verbatim>\<open>null\<close>, the empty string, or an array all of whose elements are arrays or
  objects; the store is then the \<^verbatim>\<open>Map\<close> built from that value. A text that parses to
  anything else makes the constructor throw, and \<^verbatim>\<open>importData\<close> returns \<^verbatim>\<open>false\<close> as
  it does when parsing fails.
\<close>

theorem importData_result:
  "(fst (importData JSON_parse serialize jsonData st) \<longleftrightarrow>
      (\<exists>data. JSON_parse jsonData = Inr data \<and>
         (data = JNull \<or> data = JString [] \<or>
          (\<exists>items. data = JArray items \<and> list_all is_object items)))) \<and>
   (fst (importData JSON_parse serialize jsonData st) \<longrightarrow>
      (\<exists>data. JSON_parse jsonData = Inr data \<and>
         new_Map data = Inr (storage (snd (importData JSON_parse serialize jsonData st)))))"
proof -
  have ok: "\<And>data. (\<exists>m. new_Map data = Inr m) \<longleftrightarrow>
     (data = JNull \<or> data = JString [] \<or> (\<exists>items. data = JArray items \<and> list_all is_object items))"
    by (rule new_Map_succeeds)
  show ?thesis
  proof (cases "JSON_parse jsonData")
    case (Inl e)
    then show ?thesis by (simp add: importData_def)
  next
    case (Inr data)
    show ?thesis
    proof (cases "new_Map data")
      case (Inl e)
      then have "\<not> (\<exists>m. new_Map data = Inr m)" by simp
      then show ?thesis using Inr Inl unfolding ok by (simp add: importData_def)
    next
      case new: (Inr m)
      then have "\<exists>m. new_Map data = Inr m" by blast
      then show ?thesis using Inr new unfolding ok
        by (auto simp add: importData_def saveToLocalStorage_def split: option.splits)
    qed
  qed
qed

theorem importData_result_witness:
  "importData parseExample (\<lambda>m. Some ''saved'') ''[[1,null]]'' emptyImportStore
     = (True, \<lparr>storage = [(Some (JNumber 1), Some JNull)], localStorage = Some ''saved''\<rparr>)"
proof -
  let ?r = "importData parseExample (\<lambda>m. Some ''saved'') ''[[1,null]]'' emptyImportStore"
  have p: "parseExample ''[[1,null]]'' = Inr (JArray [JArray [JNumber 1, JNull]])"
    by (simp add: parseExample_def)
  have "fst ?r"
    using importData_result[of parseExample "\<lambda>m. Some ''saved''" "''[[1,null]]''" emptyImportStore]
    unfolding p by simp
  then have "\<exists>data. parseExample ''[[1,null]]'' = Inr data \<and> new_Map data = Inr (storage (snd ?r))"
    using importData_result[of parseExample "\<lambda>m. Some ''saved''" "''[[1,null]]''" emptyImportStore]
    by blast
  then show ?thesis unfolding p
    by (simp add: importData_def p saveToLocalStorage_def emptyImportStore_def)
qed

text \<open>
  C6, as the spec has it, fails: the text \<^verbatim>\<open>5\<close> parses as JSON, and \<^verbatim>\<open>importData\<close>
  returns \<^verbatim>\<open>false\<close> and leaves the store as it was.
\<close>

theorem importData_number_counterexample:
  "parseExample ''5'' = Inr (JNumber 5) \<and>
   importData parseExample (\<lambda>m. Some ''saved'') ''5'' emptyImportStore = (False, emptyImportStore)"
  by (simp add: parseExample_def importData_def)

text \<open>
  C9. When \<^verbatim>\<open>importData\<close> returns \<^verbatim>\<open>false\<close>, the in-memory store and the text in
  localStorage are what they were before the call, and the failure is that of
  \<^verbatim>\<open>JSON.parse\<close> or of the \<^verbatim>\<open>Map\<close> constructor.
\<close>

theorem importData_failure_atomic:
  assumes "\<not> fst (importData JSON_parse serialize jsonData st)"
  shows "snd (importData JSON_parse serialize jsonData st) = st \<and>
         storage (snd (importData JSON_parse serialize jsonData st)) = storage st \<and>
         localStorage (snd (importData JSON_parse serialize jsonData st)) = localStorage st \<and>
         (isl (JSON_parse jsonData) \<or>
          (\<exists>data. JSON_parse jsonData = Inr data \<and> new_Map data = Inl TypeError))"
proof (cases "JSON_parse jsonData")
  case (Inl e)
  then show ?thesis by (simp add: importData_def)
next
  case (Inr data)
  show ?thesis
  proof (cases "new_Map data")
    case failed: (Inl e)
    have "e = TypeError" using failed by (rule new_Map_error)
    with Inr failed show ?thesis by (simp add: importData_def)
  next
    case built: (Inr m)
    with Inr assms show ?thesis by (simp add: importData_def)
  qed
qed

theorem importData_failure_atomic_witness:
  "\<not> fst (importData parseExample (\<lambda>m. Some ''saved'') ''[1,'' emptyImportStore) \<and>
   snd (importData parseExample (\<lambda>m. Some ''saved'') ''[1,'' emptyImportStore) = emptyImportStore"
proof -
  have f: "\<not> fst (importData parseExample (\<lambda>m. Some ''saved'') ''[1,'' emptyImportStore)"
    by (simp add: importData_def parseExample_def)
  from importData_failure_atomic[OF f] f show ?thesis by simp
qed

section \<open>Properties of handleDelete\<close>



lemma dom_cache_update: "dom (cache_update i f cache) = dom cache"
  by (auto simp: cache_update_def split: option.splits if_splits)

lemma dom_handleDelete_id: "dom (fst (handleDelete_id cfg host channelId i cs)) = dom (fst cs)"
  by (auto simp: handleDelete_id_def dom_cache_update split: option.splits)

lemma dom_handleDelete_ids: "dom (fst (handleDelete_ids cfg host channelId ids cs)) = dom (fst cs)"
  by (induction ids arbitrary: cs) (simp_all add: dom_handleDelete_id)

lemma dom_handleDelete: "dom (fst (handleDelete cfg host cache data isBulk st)) = dom cache"
proof (cases "if isBulk then map_option (map Some) (d_ids data) else Some [d_id data]")
  case None
  then show ?thesis by (simp add: handleDelete_def)
next
  case (Some ids)
  then have "handleDelete cfg host cache data isBulk st
               = handleDelete_ids cfg host (d_channelId data) ids (cache, st)"
    by (simp add: handleDelete_def)
  then show ?thesis using dom_handleDelete_ids[of cfg host "d_channelId data" ids "(cache, st)"]
    by simp
qed






















section \<open>Properties of AutoMuter\<close>










lemma loud_state:
  "monitorAll defaultAutoMuterSettings workingHost loudCalls initialAutoMuter
     = \<lparr>processedUsers = {}, mutedUsers = [''u'' \<mapsto> 6004],
        audioLevels = [''u'' \<mapsto> [90, 90, 90, 90, 90]],
        localVolume = [''u'' \<mapsto> 0],
        timeouts = [(5000, AutoUnmute ''u'' 6004)]\<rparr>"
  by (simp add: loudCalls_def monitorAudioLevel_def defaultAutoMuterSettings_def workingHost_def
      initialAutoMuter_def Let_def setUserMuted_def callSetLocalVolume_def)


lemma mutedUsers_processUser: "mutedUsers (processUser cfg host uid s) = mutedUsers s"
  by (simp add: processUser_def setUserVolume_def callSetLocalVolume_def Let_def split: option.splits)

lemma timeouts_processUser: "timeouts (processUser cfg host uid s) = timeouts s"
  by (simp add: processUser_def setUserVolume_def callSetLocalVolume_def Let_def split: option.splits)

lemma mutedUsers_setUserMuted: "mutedUsers (snd (setUserMuted host uid b s)) = mutedUsers s"
  by (simp add: setUserMuted_def callSetLocalVolume_def)

lemma timeouts_setUserMuted: "timeouts (snd (setUserMuted host uid b s)) = timeouts s"
  by (simp add: setUserMuted_def callSetLocalVolume_def)

lemma timeouts_fire: "timeouts (fire cfg host cb s) = timeouts s"
  by (cases cb) (simp add: autoUnmute_def Let_def timeouts_processUser timeouts_setUserMuted)

lemma timeouts_monitorAudioLevel:
  "\<exists>new. timeouts (monitorAudioLevel cfg host now uid audioLevel s) = timeouts s @ new"
  by (simp add: monitorAudioLevel_def Let_def timeouts_setUserMuted)

lemma fire_guard_fails: "mutedUsers s uid \<noteq> Some t \<Longrightarrow> fire cfg host (AutoUnmute uid t) s = s"
  by (simp add: autoUnmute_def)

lemma fire_guard_holds:
  "mutedUsers s uid = Some t \<Longrightarrow> mutedUsers (fire cfg host (AutoUnmute uid t) s) uid = None"
  by (simp add: autoUnmute_def Let_def mutedUsers_processUser mutedUsers_setUserMuted)

lemma cleanup_removes:
  "mutedUsers s uid = Some t \<Longrightarrow> now \<ge> t \<Longrightarrow> mutedUsers (cleanupExpiredMutes now s) uid = None"
  by (simp add: cleanupExpiredMutes_def expired_def)

text \<open>
  C7, as the code has it. The callback of the auto-unmute is guarded by state: fired
  while \<^verbatim>\<open>mutedUsers\<close> no longer maps the user to the unmute time captured when the
  timeout was scheduled, it changes nothing; fired while it does, it removes the entry.
  \<^verbatim>\<open>cleanupExpiredMutes\<close>, run at or after the unmute time, removes the entry and so
  turns the callback into a no-op. No operation clears a timeout:
  \<^verbatim>\<open>cleanupExpiredMutes\<close> and a fired callback leave the scheduled timeouts as they
  are, and \<^verbatim>\<open>monitorAudioLevel\<close> only adds to them.
\<close>

theorem autoUnmute_guarded_by_state:
  "(mutedUsers s uid \<noteq> Some t \<longrightarrow> fire cfg host (AutoUnmute uid t) s = s) \<and>
   (mutedUsers s uid = Some t \<longrightarrow> mutedUsers (fire cfg host (AutoUnmute uid t) s) uid = None) \<and>
   (mutedUsers s uid = Some t \<and> now \<ge> t \<longrightarrow>
      fire cfg host (AutoUnmute uid t) (cleanupExpiredMutes now s) = cleanupExpiredMutes now s) \<and>
   timeouts (cleanupExpiredMutes now s) = timeouts s \<and>
   timeouts (fire cfg host cb s) = timeouts s \<and>
   (\<exists>new. timeouts (monitorAudioLevel cfg host now uid audioLevel s) = timeouts s @ new)"
proof (intro conjI impI)
  show "mutedUsers s uid \<noteq> Some t \<Longrightarrow> fire cfg host (AutoUnmute uid t) s = s"
    by (rule fire_guard_fails)
  show "mutedUsers s uid = Some t \<Longrightarrow> mutedUsers (fire cfg host (AutoUnmute uid t) s) uid = None"
    by (rule fire_guard_holds)
  show "fire cfg host (AutoUnmute uid t) (cleanupExpiredMutes now s) = cleanupExpiredMutes now s"
    if "mutedUsers s uid = Some t \<and> now \<ge> t"
  proof -
    from that have "mutedUsers (cleanupExpiredMutes now s) uid = None"
      by (simp add: cleanup_removes)
    then have "mutedUsers (cleanupExpiredMutes now s) uid \<noteq> Some t" by simp
    then show ?thesis by (rule fire_guard_fails)
  qed
  show "timeouts (cleanupExpiredMutes now s) = timeouts s"
    by (simp add: cleanupExpiredMutes_def)
  show "timeouts (fire cfg host cb s) = timeouts s" by (rule timeouts_fire)
  show "\<exists>new. timeouts (monitorAudioLevel cfg host now uid audioLevel s) = timeouts s @ new"
    by (rule timeouts_monitorAudioLevel)
qed

lemma loudState_eq:
  "loudState = \<lparr>processedUsers = {}, mutedUsers = [''u'' \<mapsto> 6004],
        audioLevels = [''u'' \<mapsto> [90, 90, 90, 90, 90]],
        localVolume = [''u'' \<mapsto> 0],
        timeouts = [(5000, AutoUnmute ''u'' 6004)]\<rparr>"
  unfolding loudState_def by (rule loud_state)

theorem autoUnmute_guarded_by_state_witness:
  "mutedUsers loudState ''u'' = Some 6004 \<and>
   mutedUsers (fire defaultAutoMuterSettings workingHost (AutoUnmute ''u'' 6004) loudState) ''u'' = None \<and>
   fire defaultAutoMuterSettings workingHost (AutoUnmute ''u'' 6004) (cleanupExpiredMutes 6004 loudState)
     = cleanupExpiredMutes 6004 loudState"
proof -
  have m: "mutedUsers loudState ''u'' = Some 6004" by (simp add: loudState_eq)
  show ?thesis
    using autoUnmute_guarded_by_state[of loudState "''u''" 6004 defaultAutoMuterSettings workingHost 6004] m
    by simp
qed

text \<open>
  C7, as the spec has it, fails. Five loud samples mute user \<^verbatim>\<open>u\<close> (volume 0) and
  schedule the unmute for 6004; \<^verbatim>\<open>cleanupExpiredMutes\<close> runs at 6004; the timeout is
  still scheduled, and when it fires the callback changes nothing: the user stays at
  volume 0. Fired before the cleanup, the same callback unmutes the user and sets the
  volume of a non-friend.
\<close>

theorem autoUnmute_noop_counterexample:
  "timeouts loudState = [(5000, AutoUnmute ''u'' 6004)] \<and>
   localVolume loudState ''u'' = Some 0 \<and>
   timeouts (cleanupExpiredMutes 6004 loudState) = [(5000, AutoUnmute ''u'' 6004)] \<and>
   fire defaultAutoMuterSettings workingHost (AutoUnmute ''u'' 6004) (cleanupExpiredMutes 6004 loudState)
     = cleanupExpiredMutes 6004 loudState \<and>
   localVolume (cleanupExpiredMutes 6004 loudState) ''u'' = Some 0 \<and>
   localVolume (fire defaultAutoMuterSettings workingHost (AutoUnmute ''u'' 6004) loudState) ''u''
     = Some (1 / 2)"
proof -
  have m: "mutedUsers (cleanupExpiredMutes 6004 loudState) ''u'' \<noteq> Some 6004"
    by (simp add: loudState_eq cleanupExpiredMutes_def expired_def)
  have "fire defaultAutoMuterSettings workingHost (AutoUnmute ''u'' 6004) (cleanupExpiredMutes 6004 loudState)
     = cleanupExpiredMutes 6004 loudState"
    using m by (simp add: autoUnmute_def)
  moreover have "localVolume (fire defaultAutoMuterSettings workingHost (AutoUnmute ''u'' 6004) loudState) ''u''
     = Some (1 / 2)"
    by (simp add: loudState_eq autoUnmute_def setUserMuted_def callSetLocalVolume_def processUser_def
        setUserVolume_def isFriend_def Math_round_def defaultAutoMuterSettings_def workingHost_def Let_def)
  ultimately show ?thesis
    by (simp add: loudState_eq cleanupExpiredMutes_def)
qed

section \<open>Properties of VoiceChannelLogger\<close>

lemma logsOf_saveLogEntry:
  "logsOf (saveLogEntry cfg host entry s) =
     (if enableFileLogging cfg \<and> dataStoreUpdates host
      then (if maxLogEntries cfg > 0 \<and> int (length (entry # logsOf s)) > maxLogEntries cfg
            then take (nat (maxLogEntries cfg)) (entry # logsOf s)
            else entry # logsOf s)
      else logsOf s)"
  by (simp add: saveLogEntry_def updateLogs_def logsOf_def Let_def)

lemma saveLogEntry_within:
  assumes "0 < maxLogEntries cfg" "int (length (logsOf s)) \<le> maxLogEntries cfg"
  shows "int (length (logsOf (saveLogEntry cfg host entry s))) \<le> maxLogEntries cfg"
  using assms unfolding logsOf_saveLogEntry by auto

lemma saveLogEntries_within:
  "0 < maxLogEntries cfg \<Longrightarrow> int (length (logsOf s)) \<le> maxLogEntries cfg
     \<Longrightarrow> int (length (logsOf (saveLogEntries cfg host entries s))) \<le> maxLogEntries cfg"
proof (induction entries arbitrary: s)
  case Nil
  then show ?case by simp
next
  case (Cons e entries)
  show ?case using Cons.IH[OF Cons.prems(1) saveLogEntry_within[OF Cons.prems]] by simp
qed

text \<open>
  C2, as the code has it. With a positive \<^verbatim>\<open>maxLogEntries\<close>, a save that reaches the
  DataStore stores the new entry in front of the old list, cut to its first
  \<^verbatim>\<open>maxLogEntries\<close> entries, and a log within the limit stays within it under any
  sequence of \<^verbatim>\<open>saveLogEntry\<close> calls. With \<^verbatim>\<open>maxLogEntries\<close> 0 ("unlimited" in the
  setting's description) or negative, nothing is cut.
\<close>

theorem saveLogEntry_bounded:
  "(0 < maxLogEntries cfg \<and> enableFileLogging cfg \<and> dataStoreUpdates host \<longrightarrow>
      storedLogs (saveLogEntry cfg host entry s)
        = Some (take (nat (maxLogEntries cfg)) (entry # logsOf s)) \<and>
      int (length (logsOf (saveLogEntry cfg host entry s))) \<le> maxLogEntries cfg) \<and>
   (0 < maxLogEntries cfg \<and> int (length (logsOf s)) \<le> maxLogEntries cfg \<longrightarrow>
      int (length (logsOf (saveLogEntries cfg host entries s))) \<le> maxLogEntries cfg) \<and>
   (maxLogEntries cfg \<le> 0 \<and> enableFileLogging cfg \<and> dataStoreUpdates host \<longrightarrow>
      logsOf (saveLogEntry cfg host entry s) = entry # logsOf s)"
proof (intro conjI impI)
  assume a: "0 < maxLogEntries cfg \<and> enableFileLogging cfg \<and> dataStoreUpdates host"
  then show "storedLogs (saveLogEntry cfg host entry s)
        = Some (take (nat (maxLogEntries cfg)) (entry # logsOf s))"
    by (auto simp: saveLogEntry_def updateLogs_def logsOf_def Let_def)
  from a show "int (length (logsOf (saveLogEntry cfg host entry s))) \<le> maxLogEntries cfg"
    unfolding logsOf_saveLogEntry by auto
next
  assume "0 < maxLogEntries cfg \<and> int (length (logsOf s)) \<le> maxLogEntries cfg"
  then show "int (length (logsOf (saveLogEntries cfg host entries s))) \<le> maxLogEntries cfg"
    by (simp add: saveLogEntries_within)
next
  assume "maxLogEntries cfg \<le> 0 \<and> enableFileLogging cfg \<and> dataStoreUpdates host"
  then show "logsOf (saveLogEntry cfg host entry s) = entry # logsOf s"
    unfolding logsOf_saveLogEntry by auto
qed

lemma logsOf_started: "logsOf startedVcl = []"
  by (simp add: logsOf_def startedVcl_def)

theorem saveLogEntry_bounded_witness:
  "0 < maxLogEntries (defaultVclSettings\<lparr>maxLogEntries := 2\<rparr>) \<and>
   logsOf (saveLogEntries (defaultVclSettings\<lparr>maxLogEntries := 2\<rparr>) vclHost
             [sampleEntry 1, sampleEntry 2, sampleEntry 3] startedVcl)
     = [sampleEntry 3, sampleEntry 2] \<and>
   int (length (logsOf (saveLogEntries (defaultVclSettings\<lparr>maxLogEntries := 2\<rparr>) vclHost
             [sampleEntry 1, sampleEntry 2, sampleEntry 3] startedVcl))) \<le> 2"
proof -
  let ?cfg = "defaultVclSettings\<lparr>maxLogEntries := 2\<rparr>"
  have m: "maxLogEntries ?cfg = 2" by simp
  have "int (length (logsOf (saveLogEntries ?cfg vclHost
             [sampleEntry 1, sampleEntry 2, sampleEntry 3] startedVcl))) \<le> maxLogEntries ?cfg"
    using saveLogEntry_bounded[of ?cfg vclHost "sampleEntry 1" startedVcl
        "[sampleEntry 1, sampleEntry 2, sampleEntry 3]"]
    unfolding m by (simp add: logsOf_started)
  moreover have "logsOf (saveLogEntries ?cfg vclHost
             [sampleEntry 1, sampleEntry 2, sampleEntry 3] startedVcl)
     = [sampleEntry 3, sampleEntry 2]"
    by (simp add: logsOf_saveLogEntry logsOf_started defaultVclSettings_def vclHost_def)
  ultimately show ?thesis by simp
qed

text \<open>
  C2, as the spec has it, fails for the setting 0: the log has one entry after the first
  save, more than the configured number.
\<close>

theorem saveLogEntry_unlimited_counterexample:
  "maxLogEntries unlimitedVclSettings = 0 \<and>
   logsOf (saveLogEntry unlimitedVclSettings vclHost (sampleEntry 1) startedVcl) = [sampleEntry 1] \<and>
   int (length (logsOf (saveLogEntry unlimitedVclSettings vclHost (sampleEntry 1) startedVcl)))
     > maxLogEntries unlimitedVclSettings"
  by (simp add: logsOf_saveLogEntry logsOf_started unlimitedVclSettings_def defaultVclSettings_def
      vclHost_def)

lemma logVoiceEvent_toasts:
  "toasts (logVoiceEvent cfg host e quiet s) =
     (if showToastNotifications cfg \<and> \<not> quiet then toasts s @ [e] else toasts s)"
  by (simp add: logVoiceEvent_def saveLogEntry_def showToastNotification_def Let_def)

lemma logVoiceEvent_frame:
  "userSessions (logVoiceEvent cfg host e quiet s) = userSessions s"
  "suppressToastsUntil (logVoiceEvent cfg host e quiet s) = suppressToastsUntil s"
  "initializationSuppressUntil (logVoiceEvent cfg host e quiet s) = initializationSuppressUntil s"
  "pluginInitialized (logVoiceEvent cfg host e quiet s) = pluginInitialized s"
  "lastUserChannelId (logVoiceEvent cfg host e quiet s) = lastUserChannelId s"
  by (simp_all add: logVoiceEvent_def saveLogEntry_def showToastNotification_def Let_def)


lemma trackSession_frame:
  "toasts (snd (trackSession cfg act uid now s)) = toasts s"
  "suppressToastsUntil (snd (trackSession cfg act uid now s)) = suppressToastsUntil s"
  "initializationSuppressUntil (snd (trackSession cfg act uid now s)) = initializationSuppressUntil s"
  "pluginInitialized (snd (trackSession cfg act uid now s)) = pluginInitialized s"
  "lastUserChannelId (snd (trackSession cfg act uid now s)) = lastUserChannelId s"
  by (simp_all add: trackSession_def split: Action.splits option.splits)




text \<open>The iteration, case by case.\<close>

lemma eventAction_cases:
  "eventAction c vs = (if joins c vs then Some Join else if leaves c vs then Some Leave else None)"
  by (auto simp: eventAction_def joins_def leaves_def Let_def)

lemma joins_not_leaves: "joins c vs \<Longrightarrow> \<not> leaves c vs"
  by (auto simp: joins_def leaves_def)







lemma initializedVcl_eq:
  "initializedVcl =
     \<lparr>lastUserChannelId = Some ''c1'', suppressToastsUntil = 0, pluginInitialized = True,
      initializationSuppressUntil = 6000, initializationStartTime = 1000,
      processedUsersDuringInit = {}, userSessions = Map.empty,
      storedLogs = None, toasts = []\<rparr>"
  by (simp add: initializedVcl_def VOICE_STATE_UPDATES_def initialize_def channelSwitch_def
      processVoiceState_def defaultVclSettings_def vclHost_def startAt_def atTime_def joinOf_def
      startedVcl_def truthy_def INITIALIZATION_SUPPRESSION_DURATION_def Let_def)

lemmas vcl_example_defs =
  defaultVclSettings_def vclHost_def atTime_def joinOf_def leaveOf_def

lemmas vcl_step_defs =
  processVoiceState_def filteredOut_def eventAction_def trackSession_def makeLogEntry_def
  shouldSuppressToast_def logVoiceEvent_def saveLogEntry_def updateLogs_def
  showToastNotification_def slice_last4_def truthy_def Let_def











text \<open>The variables behind the windows, through the loop and through a run.\<close>

lemma processVoiceState_vars:
  "pluginInitialized (snd (processVoiceState cfg host c clk vs s)) = pluginInitialized s"
  "lastUserChannelId (snd (processVoiceState cfg host c clk vs s)) = lastUserChannelId s"
  "initializationSuppressUntil (snd (processVoiceState cfg host c clk vs s))
     = initializationSuppressUntil s"
  "suppressToastsUntil (snd (processVoiceState cfg host c clk vs s)) = suppressToastsUntil s"
  by (simp_all add: processVoiceState_def Let_def logVoiceEvent_frame trackSession_frame
      split: option.splits)

lemma processVoiceStates_vars:
  "pluginInitialized (snd (processVoiceStates cfg host c evs s)) = pluginInitialized s \<and>
   lastUserChannelId (snd (processVoiceStates cfg host c evs s)) = lastUserChannelId s \<and>
   initializationSuppressUntil (snd (processVoiceStates cfg host c evs s))
     = initializationSuppressUntil s \<and>
   suppressToastsUntil (snd (processVoiceStates cfg host c evs s)) = suppressToastsUntil s"
proof (induction evs arbitrary: s)
  case Nil
  then show ?case by simp
next
  case (Cons ev evs)
  obtain vs clk where ev: "ev = (vs, clk)" by (cases ev) auto
  show ?case unfolding ev
    using Cons.IH[of "snd (processVoiceState cfg host c clk vs s)"]
    by (simp add: Let_def processVoiceState_vars)
qed

lemma processVoiceState_toasts:
  "toasts (snd (processVoiceState cfg host c clk vs s))
     = toasts s @ toastOf cfg (fst (processVoiceState cfg host c clk vs s))"
  by (simp add: processVoiceState_def Let_def logVoiceEvent_toasts trackSession_frame
      split: option.splits)

lemma processVoiceState_announces:
  assumes "suppressToastsForExistingUsers cfg"
  shows "(toastOf cfg (fst (processVoiceState cfg host c clk vs s)) \<noteq> [])
           = announced cfg host c (initializationSuppressUntil s) (suppressToastsUntil s) (vs, clk)"
  using assms
  by (auto simp: processVoiceState_def announced_def passesFilters_def eventAction_cases Let_def
      shouldSuppressToast_def trackSession_frame dest: joins_not_leaves)

lemma processVoiceState_toast_entry:
  assumes "toastOf cfg (fst (processVoiceState cfg host c clk vs s)) = [e]"
  shows "\<exists>d. e = makeLogEntry host vs (if joins c vs then Join else Leave) d (t_entry clk)"
  using assms
  by (auto simp: processVoiceState_def eventAction_cases Let_def
      split: if_splits)

lemma loop_announces:
  assumes "suppressToastsForExistingUsers cfg"
  shows "length (fst (processVoiceStates cfg host c evs s)) = length evs \<and>
   toasts (snd (processVoiceStates cfg host c evs s))
     = toasts s @ concat (map (toastOf cfg) (fst (processVoiceStates cfg host c evs s))) \<and>
   (\<forall>i < length evs.
      (toastOf cfg (fst (processVoiceStates cfg host c evs s) ! i) \<noteq> [])
        = announced cfg host c (initializationSuppressUntil s) (suppressToastsUntil s) (evs ! i) \<and>
      (\<forall>e. toastOf cfg (fst (processVoiceStates cfg host c evs s) ! i) = [e] \<longrightarrow>
         (\<exists>d. e = makeLogEntry host (fst (evs ! i))
                    (if joins c (fst (evs ! i)) then Join else Leave) d
                    (t_entry (snd (evs ! i))))))"
proof (induction evs arbitrary: s)
  case Nil
  then show ?case by simp
next
  case (Cons ev evs)
  obtain vs clk where ev: "ev = (vs, clk)" by (cases ev) auto
  let ?r = "processVoiceState cfg host c clk vs s"
  note ih = Cons.IH[of "snd ?r", unfolded processVoiceState_vars]
  have eq: "processVoiceStates cfg host c (ev # evs) s
      = (fst ?r # fst (processVoiceStates cfg host c evs (snd ?r)),
         snd (processVoiceStates cfg host c evs (snd ?r)))"
    unfolding ev by (simp add: Let_def)
  show ?case
  proof (intro conjI allI impI)
    show "length (fst (processVoiceStates cfg host c (ev # evs) s)) = length (ev # evs)"
      unfolding eq using ih by simp
    show "toasts (snd (processVoiceStates cfg host c (ev # evs) s))
            = toasts s @ concat (map (toastOf cfg) (fst (processVoiceStates cfg host c (ev # evs) s)))"
      unfolding eq using ih processVoiceState_toasts[of cfg host c clk vs s] by simp
  next
    fix i
    assume i: "i < length (ev # evs)"
    show "(toastOf cfg (fst (processVoiceStates cfg host c (ev # evs) s) ! i) \<noteq> [])
        = announced cfg host c (initializationSuppressUntil s) (suppressToastsUntil s)
            ((ev # evs) ! i)"
    proof (cases i)
      case 0
      then show ?thesis unfolding eq using processVoiceState_announces[OF assms, of host c clk vs s] ev
        by simp
    next
      case (Suc j)
      with i have "j < length evs" by simp
      with ih show ?thesis unfolding eq using Suc by simp
    qed
  next
    fix i e
    assume i: "i < length (ev # evs)"
      and t: "toastOf cfg (fst (processVoiceStates cfg host c (ev # evs) s) ! i) = [e]"
    show "\<exists>d. e = makeLogEntry host (fst ((ev # evs) ! i))
                    (if joins c (fst ((ev # evs) ! i)) then Join else Leave) d
                    (t_entry (snd ((ev # evs) ! i)))"
    proof (cases i)
      case 0
      with t have "toastOf cfg (fst ?r) = [e]" unfolding eq by simp
      from processVoiceState_toast_entry[OF this] show ?thesis using 0 ev by simp
    next
      case (Suc j)
      with i t have "j < length evs"
        "toastOf cfg (fst (processVoiceStates cfg host c evs (snd ?r)) ! j) = [e]"
        unfolding eq by simp_all
      with ih show ?thesis using Suc by simp
    qed
  qed
qed

lemma initialize_toasts: "toasts (initialize cfg host sclk s) = toasts s"
  by (simp add: initialize_def Let_def split: option.splits)

lemma channelSwitch_toasts: "toasts (channelSwitch cfg host sclk mine s) = toasts s"
  by (simp add: channelSwitch_def Let_def split: option.splits)

lemma handler_loops:
  assumes "evs \<noteq> []" "getVoiceChannelId host = Some c" "c \<noteq> []" "getCurrentUser host \<noteq> None"
  shows "\<exists>s3. VOICE_STATE_UPDATES cfg host sclk evs s = processVoiceStates cfg host c evs s3 \<and>
           toasts s3 = toasts s \<and>
           pluginInitialized s3 = pluginInitialized
             (channelSwitch cfg host sclk
                (find (\<lambda>vs. Some (vs_userId vs) = getCurrentUser host) (map fst evs))
                (initialize cfg host sclk s)) \<and>
           lastUserChannelId s3 = lastUserChannelId
             (channelSwitch cfg host sclk
                (find (\<lambda>vs. Some (vs_userId vs) = getCurrentUser host) (map fst evs))
                (initialize cfg host sclk s)) \<and>
           initializationSuppressUntil s3 = initializationSuppressUntil
             (channelSwitch cfg host sclk
                (find (\<lambda>vs. Some (vs_userId vs) = getCurrentUser host) (map fst evs))
                (initialize cfg host sclk s)) \<and>
           suppressToastsUntil s3 = suppressToastsUntil
             (channelSwitch cfg host sclk
                (find (\<lambda>vs. Some (vs_userId vs) = getCurrentUser host) (map fst evs))
                (initialize cfg host sclk s))"
proof -
  let ?mine = "find (\<lambda>vs. Some (vs_userId vs) = getCurrentUser host) (map fst evs)"
  let ?s2 = "channelSwitch cfg host sclk ?mine (initialize cfg host sclk s)"
  let ?s3 = "if t_cleanup sclk > initializationSuppressUntil ?s2 \<and> processedUsersDuringInit ?s2 \<noteq> {}
             then ?s2\<lparr>processedUsersDuringInit := {}\<rparr> else ?s2"
  have "\<not> (getCurrentUser host = None \<or> c = [])" using assms by simp
  then have "VOICE_STATE_UPDATES cfg host sclk evs s = processVoiceStates cfg host c evs ?s3"
    unfolding VOICE_STATE_UPDATES_def Let_def using assms(1,2)
    by (simp only: if_False option.case)
  moreover have "toasts ?s3 = toasts s" by (simp add: channelSwitch_toasts initialize_toasts)
  moreover have "pluginInitialized ?s3 = pluginInitialized ?s2"
    "lastUserChannelId ?s3 = lastUserChannelId ?s2"
    "initializationSuppressUntil ?s3 = initializationSuppressUntil ?s2"
    "suppressToastsUntil ?s3 = suppressToastsUntil ?s2"
    by simp_all
  ultimately show ?thesis by blast
qed

lemma handler_quits:
  assumes "\<not> (evs \<noteq> [] \<and> getVoiceChannelId host = Some c \<and> c \<noteq> [] \<and> getCurrentUser host \<noteq> None)"
    and "getVoiceChannelId host = None \<or> getVoiceChannelId host = Some c"
  shows "VOICE_STATE_UPDATES cfg host sclk evs s =
           ([], if evs = [] then s
                else channelSwitch cfg host sclk
                       (find (\<lambda>vs. Some (vs_userId vs) = getCurrentUser host) (map fst evs))
                       (initialize cfg host sclk s))"
  using assms by (auto simp: VOICE_STATE_UPDATES_def Let_def split: option.splits)

lemma handler_vars:
  assumes "evs \<noteq> []"
  shows "pluginInitialized (snd (VOICE_STATE_UPDATES cfg host sclk evs s)) = pluginInitialized
           (channelSwitch cfg host sclk
              (find (\<lambda>vs. Some (vs_userId vs) = getCurrentUser host) (map fst evs))
              (initialize cfg host sclk s)) \<and>
         lastUserChannelId (snd (VOICE_STATE_UPDATES cfg host sclk evs s)) = lastUserChannelId
           (channelSwitch cfg host sclk
              (find (\<lambda>vs. Some (vs_userId vs) = getCurrentUser host) (map fst evs))
              (initialize cfg host sclk s)) \<and>
         initializationSuppressUntil (snd (VOICE_STATE_UPDATES cfg host sclk evs s))
           = initializationSuppressUntil
           (channelSwitch cfg host sclk
              (find (\<lambda>vs. Some (vs_userId vs) = getCurrentUser host) (map fst evs))
              (initialize cfg host sclk s)) \<and>
         suppressToastsUntil (snd (VOICE_STATE_UPDATES cfg host sclk evs s)) = suppressToastsUntil
           (channelSwitch cfg host sclk
              (find (\<lambda>vs. Some (vs_userId vs) = getCurrentUser host) (map fst evs))
              (initialize cfg host sclk s))"
proof (cases "\<exists>c. getVoiceChannelId host = Some c \<and> c \<noteq> [] \<and> getCurrentUser host \<noteq> None")
  case True
  then obtain c where c: "getVoiceChannelId host = Some c" "c \<noteq> []" "getCurrentUser host \<noteq> None"
    by blast
  from handler_loops[OF assms c, of cfg sclk s] obtain s3 where
    "VOICE_STATE_UPDATES cfg host sclk evs s = processVoiceStates cfg host c evs s3"
    and "pluginInitialized s3 = pluginInitialized
             (channelSwitch cfg host sclk
                (find (\<lambda>vs. Some (vs_userId vs) = getCurrentUser host) (map fst evs))
                (initialize cfg host sclk s))"
    and "lastUserChannelId s3 = lastUserChannelId
             (channelSwitch cfg host sclk
                (find (\<lambda>vs. Some (vs_userId vs) = getCurrentUser host) (map fst evs))
                (initialize cfg host sclk s))"
    and "initializationSuppressUntil s3 = initializationSuppressUntil
             (channelSwitch cfg host sclk
                (find (\<lambda>vs. Some (vs_userId vs) = getCurrentUser host) (map fst evs))
                (initialize cfg host sclk s))"
    and "suppressToastsUntil s3 = suppressToastsUntil
             (channelSwitch cfg host sclk
                (find (\<lambda>vs. Some (vs_userId vs) = getCurrentUser host) (map fst evs))
                (initialize cfg host sclk s))"
    by blast
  then show ?thesis using processVoiceStates_vars[of cfg host c evs s3] by simp
next
  case False
  obtain c where c: "getVoiceChannelId host = None \<or> getVoiceChannelId host = Some c"
    by (cases "getVoiceChannelId host") auto
  have "\<not> (evs \<noteq> [] \<and> getVoiceChannelId host = Some c \<and> c \<noteq> [] \<and> getCurrentUser host \<noteq> None)"
    using False by blast
  from handler_quits[OF this c, of cfg sclk s] show ?thesis using assms by simp
qed

lemma find_mine:
  "find (\<lambda>vs. Some (vs_userId vs) = u) xs = Some mine \<Longrightarrow> u \<noteq> None"
  by (auto simp: find_Some_iff)

lemma initialize_tracks:
  assumes "suppressToastsForExistingUsers cfg" "tracks w s"
  shows "tracks (if startupFrom w = None \<and> truthy (getVoiceChannelId host) \<and>
                    getCurrentUser host \<noteq> None
                 then w\<lparr>startupFrom := Some (t_initUntil sclk),
                        knownChannel := getVoiceChannelId host\<rparr>
                 else w)
           (initialize cfg host sclk s)"
  using assms
  by (auto simp: tracks_def initialize_def truthy_def Let_def startupWindowEnd_def
      switchWindowEnd_def INITIALIZATION_SUPPRESSION_DURATION_def split: option.splits)

lemma channelSwitch_tracks:
  assumes "suppressToastsForExistingUsers cfg" "tracks w s" "getCurrentUser host \<noteq> None"
  shows "tracks (if truthy (vs_channelId mine)
                 then (if vs_channelId mine \<noteq> knownChannel w \<and> startupFrom w \<noteq> None
                       then w\<lparr>switchFrom := Some (t_switch sclk), knownChannel := vs_channelId mine\<rparr>
                       else w\<lparr>knownChannel := vs_channelId mine\<rparr>)
                 else w\<lparr>knownChannel := None\<rparr>)
           (channelSwitch cfg host sclk (Some mine) s)"
  using assms
  by (auto simp: tracks_def channelSwitch_def Let_def startupWindowEnd_def
      switchWindowEnd_def TOAST_SUPPRESSION_DURATION_def)

lemma tracks_fields:
  assumes "tracks w s"
    and "pluginInitialized s' = pluginInitialized s"
    and "lastUserChannelId s' = lastUserChannelId s"
    and "initializationSuppressUntil s' = initializationSuppressUntil s"
    and "suppressToastsUntil s' = suppressToastsUntil s"
  shows "tracks w s'"
  using assms by (simp add: tracks_def)

lemma tracks_step:
  assumes "suppressToastsForExistingUsers cfg" "tracks w s"
  shows "tracks (observe (host, sclk, evs) w) (snd (VOICE_STATE_UPDATES cfg host sclk evs s))"
proof (cases "evs = []")
  case True
  then show ?thesis using assms(2) by (simp add: VOICE_STATE_UPDATES_def observe_def)
next
  case False
  let ?mine = "find (\<lambda>vs. Some (vs_userId vs) = getCurrentUser host) (map fst evs)"
  define s1 where "s1 = initialize cfg host sclk s"
  define w1 where "w1 = (if startupFrom w = None \<and> truthy (getVoiceChannelId host) \<and>
                getCurrentUser host \<noteq> None
             then w\<lparr>startupFrom := Some (t_initUntil sclk),
                    knownChannel := getVoiceChannelId host\<rparr>
             else w)"
  have t1: "tracks w1 s1"
    unfolding w1_def s1_def using assms by (rule initialize_tracks)
  have o: "observe (host, sclk, evs) w = (case ?mine of None \<Rightarrow> w1
              | Some mine \<Rightarrow>
                  if truthy (vs_channelId mine)
                  then (if vs_channelId mine \<noteq> knownChannel w1 \<and> startupFrom w1 \<noteq> None
                        then w1\<lparr>switchFrom := Some (t_switch sclk), knownChannel := vs_channelId mine\<rparr>
                        else w1\<lparr>knownChannel := vs_channelId mine\<rparr>)
                  else w1\<lparr>knownChannel := None\<rparr>)"
    using False unfolding w1_def observe_def Let_def by (simp only: prod.case if_False)
  have t2: "tracks (observe (host, sclk, evs) w) (channelSwitch cfg host sclk ?mine s1)"
  proof (cases ?mine)
    case None
    then show ?thesis unfolding o using t1 by (simp add: channelSwitch_def)
  next
    case (Some mine)
    then have u: "getCurrentUser host \<noteq> None" by (rule find_mine)
    show ?thesis
      unfolding o Some using channelSwitch_tracks[OF assms(1) t1 u, of mine sclk] by simp
  qed
  show ?thesis
    using t2 handler_vars[OF False, of cfg host sclk s] unfolding s1_def
    by (intro tracks_fields[OF t2[unfolded s1_def]]) simp_all
qed

lemma tracks_runs:
  assumes "suppressToastsForExistingUsers cfg"
  shows "tracks w s \<Longrightarrow> tracks (observeAll history w) (handlerRuns cfg history s)"
proof (induction history arbitrary: w s)
  case Nil
  then show ?case by simp
next
  case (Cons run history)
  obtain host sclk evs where run: "run = (host, sclk, evs)" by (cases run) auto
  show ?case unfolding run
    using Cons.IH[OF tracks_step[OF assms Cons.prems, of host sclk evs]] by simp
qed

lemma tracks_reset: "tracks noWindows (resetPluginState s)"
  by (simp add: tracks_def noWindows_def resetPluginState_def startupWindowEnd_def
      switchWindowEnd_def)

lemma observeAll_append: "observeAll (xs @ ys) w = observeAll ys (observeAll xs w)"
  by (induction xs arbitrary: w) simp_all


text \<open>
  C4, as the code has it. Take any history of runs of the handler since the reset of the
  plugin's state, with \<^verbatim>\<open>suppressToastsForExistingUsers\<close> on, and one more run. After it
  the plugin's variables agree with the windows told from the history: the plugin is
  initialized exactly if an initialization was seen, \<^verbatim>\<open>initializationSuppressUntil\<close>
  is the clock reading of the initialization plus 5000,
  \<^verbatim>\<open>suppressToastsUntil\<close> is the clock reading of the latest switch of the current user
  into a new voice channel plus 2000, each of them 0 while there was no such event, and
  \<^verbatim>\<open>lastUserChannelId\<close> is the channel the current user was last seen in. The toasts
  shown by the run are those of its outcomes. If the run has a batch that is not
  empty, a current user and a voice channel \<open>c\<close>, it has one outcome for each event, and
  the event gets a toast exactly if \<^verbatim>\<open>showToastNotifications\<close> is on, the event passes
  the filters, and it is either a join into \<open>c\<close> whose clock readings are not before the
  end of either window, or a leave from \<open>c\<close> while \<^verbatim>\<open>onlyLogJoins\<close> is off; the toast is
  the log entry of that event. Any other run has no outcome and shows no toast.
\<close>

theorem toast_suppression_windows:
  assumes "suppressToastsForExistingUsers cfg"
  shows "tracks (observeAll (history @ [(host, sclk, evs)]) noWindows)
           (snd (VOICE_STATE_UPDATES cfg host sclk evs
                   (handlerRuns cfg history (resetPluginState s)))) \<and>
         toasts (snd (VOICE_STATE_UPDATES cfg host sclk evs
                        (handlerRuns cfg history (resetPluginState s))))
           = toasts (handlerRuns cfg history (resetPluginState s)) @
             concat (map (toastOf cfg)
               (fst (VOICE_STATE_UPDATES cfg host sclk evs
                       (handlerRuns cfg history (resetPluginState s))))) \<and>
         (evs \<noteq> [] \<and> getVoiceChannelId host = Some c \<and> c \<noteq> [] \<and> getCurrentUser host \<noteq> None \<longrightarrow>
            length (fst (VOICE_STATE_UPDATES cfg host sclk evs
                           (handlerRuns cfg history (resetPluginState s)))) = length evs \<and>
            (\<forall>i < length evs.
               (toastOf cfg (fst (VOICE_STATE_UPDATES cfg host sclk evs
                                    (handlerRuns cfg history (resetPluginState s))) ! i) \<noteq> [])
                 = announced cfg host c
                     (startupWindowEnd (observeAll (history @ [(host, sclk, evs)]) noWindows))
                     (switchWindowEnd (observeAll (history @ [(host, sclk, evs)]) noWindows))
                     (evs ! i) \<and>
               (\<forall>e. toastOf cfg (fst (VOICE_STATE_UPDATES cfg host sclk evs
                                         (handlerRuns cfg history (resetPluginState s))) ! i) = [e] \<longrightarrow>
                  (\<exists>d. e = makeLogEntry host (fst (evs ! i))
                             (if joins c (fst (evs ! i)) then Join else Leave) d
                             (t_entry (snd (evs ! i))))))) \<and>
         (evs = [] \<or> getVoiceChannelId host = None \<or> getVoiceChannelId host = Some [] \<or>
          getCurrentUser host = None \<longrightarrow>
            fst (VOICE_STATE_UPDATES cfg host sclk evs
                   (handlerRuns cfg history (resetPluginState s))) = [])"
proof -
  define before where "before = handlerRuns cfg history (resetPluginState s)"
  define w where "w = observeAll (history @ [(host, sclk, evs)]) noWindows"
  let ?r = "VOICE_STATE_UPDATES cfg host sclk evs before"
  let ?mine = "find (\<lambda>vs. Some (vs_userId vs) = getCurrentUser host) (map fst evs)"
  let ?s2 = "channelSwitch cfg host sclk ?mine (initialize cfg host sclk before)"
  have "tracks (observeAll history noWindows) before"
    unfolding before_def using tracks_runs[OF assms tracks_reset] .
  from tracks_step[OF assms this, of host sclk evs]
  have tr: "tracks w (snd ?r)" unfolding w_def by (simp add: observeAll_append)
  have quits: "fst ?r = [] \<and> toasts (snd ?r) = toasts before"
    if "evs = [] \<or> getVoiceChannelId host = None \<or> getVoiceChannelId host = Some [] \<or>
        getCurrentUser host = None"
  proof -
    obtain c' where c': "getVoiceChannelId host = None \<or> getVoiceChannelId host = Some c'"
      by (cases "getVoiceChannelId host") auto
    have "\<not> (evs \<noteq> [] \<and> getVoiceChannelId host = Some c' \<and> c' \<noteq> [] \<and> getCurrentUser host \<noteq> None)"
      using that c' by auto
    from handler_quits[OF this c', of cfg sclk before] show ?thesis
      by (simp add: channelSwitch_toasts initialize_toasts)
  qed
  have loops: "length (fst ?r) = length evs \<and>
      toasts (snd ?r) = toasts before @ concat (map (toastOf cfg) (fst ?r)) \<and>
      (\<forall>i < length evs.
         (toastOf cfg (fst ?r ! i) \<noteq> [])
           = announced cfg host c (startupWindowEnd w) (switchWindowEnd w) (evs ! i) \<and>
         (\<forall>e. toastOf cfg (fst ?r ! i) = [e] \<longrightarrow>
            (\<exists>d. e = makeLogEntry host (fst (evs ! i))
                       (if joins c (fst (evs ! i)) then Join else Leave) d
                       (t_entry (snd (evs ! i))))))"
    if run: "evs \<noteq> [] \<and> getVoiceChannelId host = Some c \<and> c \<noteq> [] \<and> getCurrentUser host \<noteq> None"
    for c
  proof -
    from run have h: "evs \<noteq> []" "getVoiceChannelId host = Some c" "c \<noteq> []"
      "getCurrentUser host \<noteq> None" by simp_all
    from handler_loops[OF h, of cfg sclk before] obtain s3 where
      r: "?r = processVoiceStates cfg host c evs s3" and t3: "toasts s3 = toasts before"
      by blast
    have "initializationSuppressUntil s3 = initializationSuppressUntil (snd ?r)"
      "suppressToastsUntil s3 = suppressToastsUntil (snd ?r)"
      unfolding r using processVoiceStates_vars[of cfg host c evs s3] by simp_all
    then have w3: "initializationSuppressUntil s3 = startupWindowEnd w"
      "suppressToastsUntil s3 = switchWindowEnd w"
      using tr by (simp_all add: tracks_def)
    from loop_announces[OF assms, of host c evs s3] show ?thesis
      unfolding r[symmetric] t3 w3 .
  qed
  have toasts: "toasts (snd ?r) = toasts before @ concat (map (toastOf cfg) (fst ?r))"
  proof (cases "evs = [] \<or> getVoiceChannelId host = None \<or> getVoiceChannelId host = Some [] \<or>
        getCurrentUser host = None")
    case True
    from quits[OF this] show ?thesis by simp
  next
    case False
    then obtain c' where "evs \<noteq> [] \<and> getVoiceChannelId host = Some c' \<and> c' \<noteq> [] \<and>
        getCurrentUser host \<noteq> None"
      by (cases "getVoiceChannelId host") auto
    from loops[OF this] show ?thesis by simp
  qed
  show ?thesis
    unfolding before_def[symmetric] w_def[symmetric]
    using tr toasts quits loops[of c] by blast
qed

lemmas vcl_run_defs =
  VOICE_STATE_UPDATES_def initialize_def channelSwitch_def startAt_def
  INITIALIZATION_SUPPRESSION_DURATION_def TOAST_SUPPRESSION_DURATION_def stayOf_def
  vclHost2_def

lemma reset_started: "resetPluginState startedVcl = startedVcl"
  by (simp add: resetPluginState_def startedVcl_def)

lemma after_firstRun: "handlerRuns defaultVclSettings [firstRun] startedVcl = initializedVcl"
  by (simp add: firstRun_def initializedVcl_def)

lemma switch_outcomes:
  "VOICE_STATE_UPDATES defaultVclSettings vclHost2 (startAt 8000)
     [(\<lparr>vs_userId = ''me'', vs_channelId = Some ''c2'', vs_oldChannelId = Some ''c1''\<rparr>, atTime 8000),
      (joinOf ''w'' ''c2'', atTime 8500)] initializedVcl
   = ([Skipped, Logged (entryIn2 ''w'' Join None 8500) True], switchedVcl)"
  unfolding initializedVcl_eq switchedVcl_def
  by (simp add: vcl_run_defs vcl_step_defs vcl_example_defs entryIn2_def)

lemma after_switchRun:
  "handlerRuns defaultVclSettings [firstRun, switchRun] startedVcl = switchedVcl"
  using after_firstRun switch_outcomes by (simp add: firstRun_def switchRun_def)

lemma own_update_outcomes:
  "VOICE_STATE_UPDATES defaultVclSettings vclHost2 (startAt 9000)
     [(stayOf ''me'' ''c2'', atTime 9000)] switchedVcl = ([Skipped], switchedVcl)"
  unfolding switchedVcl_def
  by (simp add: vcl_run_defs vcl_step_defs vcl_example_defs entryIn2_def)

lemma after_ownUpdateRun:
  "handlerRuns defaultVclSettings [firstRun, switchRun, ownUpdateRun] startedVcl = switchedVcl"
  using after_firstRun switch_outcomes own_update_outcomes
  by (simp add: firstRun_def switchRun_def ownUpdateRun_def)

lemma later_outcomes:
  "fst (VOICE_STATE_UPDATES defaultVclSettings vclHost2 (startAt 10500)
     [(joinOf ''x'' ''c2'', atTime 10500), (leaveOf ''w'' ''c2'', atTime 10600)] switchedVcl)
   = [Logged (entryIn2 ''x'' Join None 10500) False,
      Logged (entryIn2 ''w'' Leave (Some 2100) 10600) False]"
  unfolding switchedVcl_def
  by (simp add: vcl_run_defs vcl_step_defs vcl_example_defs entryIn2_def)

lemma windows_after_switch:
  "observeAll [firstRun, switchRun] noWindows
     = \<lparr>startupFrom = Some 1000, switchFrom = Some 8000, knownChannel = Some ''c2''\<rparr>"
  by (simp add: observe_def firstRun_def switchRun_def noWindows_def truthy_def Let_def
      vclHost2_def vclHost_def startAt_def joinOf_def)

lemma windows_later:
  "observeAll [firstRun, switchRun, ownUpdateRun, laterRun] noWindows
     = \<lparr>startupFrom = Some 1000, switchFrom = Some 8000, knownChannel = Some ''c2''\<rparr>"
  by (simp add: observe_def firstRun_def switchRun_def ownUpdateRun_def laterRun_def noWindows_def
      truthy_def Let_def vclHost2_def vclHost_def startAt_def joinOf_def leaveOf_def stayOf_def)

theorem toast_suppression_windows_witness:
  "initializationSuppressUntil
     (handlerRuns defaultVclSettings [firstRun, switchRun] (resetPluginState startedVcl)) = 1000 + 5000 \<and>
   suppressToastsUntil
     (handlerRuns defaultVclSettings [firstRun, switchRun] (resetPluginState startedVcl)) = 8000 + 2000 \<and>
   toasts (handlerRuns defaultVclSettings [firstRun, switchRun] (resetPluginState startedVcl)) = [] \<and>
   suppressToastsUntil
     (handlerRuns defaultVclSettings [firstRun, switchRun, ownUpdateRun, laterRun]
        (resetPluginState startedVcl)) = 8000 + 2000 \<and>
   toasts (handlerRuns defaultVclSettings [firstRun, switchRun, ownUpdateRun, laterRun]
             (resetPluginState startedVcl))
     = [entryIn2 ''x'' Join None 10500, entryIn2 ''w'' Leave (Some 2100) 10600]"
proof -
  let ?cfg = defaultVclSettings
  have on: "suppressToastsForExistingUsers ?cfg" by (simp add: defaultVclSettings_def)
  have host2: "getVoiceChannelId vclHost2 = Some ''c2''" "getCurrentUser vclHost2 \<noteq> None"
    by (simp_all add: vclHost2_def vclHost_def)
  let ?sw = "[(\<lparr>vs_userId = ''me'', vs_channelId = Some ''c2'', vs_oldChannelId = Some ''c1''\<rparr>,
                atTime 8000), (joinOf ''w'' ''c2'', atTime 8500)]"
  let ?lt = "[(joinOf ''x'' ''c2'', atTime 10500), (leaveOf ''w'' ''c2'', atTime 10600)]"
  note first = toast_suppression_windows[OF on, where history = "[firstRun]" and host = vclHost2
      and sclk = "startAt 8000" and evs = ?sw and s = startedVcl and c = "''c2''"]
  note last = toast_suppression_windows[OF on, where history = "[firstRun, switchRun, ownUpdateRun]"
      and host = vclHost2 and sclk = "startAt 10500" and evs = ?lt and s = startedVcl
      and c = "''c2''"]
  have run2: "handlerRuns ?cfg [firstRun, switchRun] (resetPluginState startedVcl)
      = snd (VOICE_STATE_UPDATES ?cfg vclHost2 (startAt 8000) ?sw
               (handlerRuns ?cfg [firstRun] (resetPluginState startedVcl)))"
    by (simp add: firstRun_def switchRun_def)
  have run4: "handlerRuns ?cfg [firstRun, switchRun, ownUpdateRun, laterRun] (resetPluginState startedVcl)
      = snd (VOICE_STATE_UPDATES ?cfg vclHost2 (startAt 10500) ?lt
               (handlerRuns ?cfg [firstRun, switchRun, ownUpdateRun] (resetPluginState startedVcl)))"
    by (simp add: firstRun_def switchRun_def ownUpdateRun_def laterRun_def)
  have w2: "observeAll ([firstRun] @ [(vclHost2, startAt 8000, ?sw)]) noWindows
      = \<lparr>startupFrom = Some 1000, switchFrom = Some 8000, knownChannel = Some ''c2''\<rparr>"
    using windows_after_switch by (simp add: switchRun_def)
  have w4: "observeAll ([firstRun, switchRun, ownUpdateRun] @ [(vclHost2, startAt 10500, ?lt)]) noWindows
      = \<lparr>startupFrom = Some 1000, switchFrom = Some 8000, knownChannel = Some ''c2''\<rparr>"
    using windows_later by (simp add: laterRun_def)
  have t2: "tracks \<lparr>startupFrom = Some 1000, switchFrom = Some 8000, knownChannel = Some ''c2''\<rparr>
      (handlerRuns ?cfg [firstRun, switchRun] (resetPluginState startedVcl))"
    using first unfolding w2 run2[symmetric] by blast
  have t4: "tracks \<lparr>startupFrom = Some 1000, switchFrom = Some 8000, knownChannel = Some ''c2''\<rparr>
      (handlerRuns ?cfg [firstRun, switchRun, ownUpdateRun, laterRun] (resetPluginState startedVcl))"
    using last unfolding w4 run4[symmetric] by blast
  have a: "initializationSuppressUntil
     (handlerRuns ?cfg [firstRun, switchRun] (resetPluginState startedVcl)) = 1000 + 5000"
    "suppressToastsUntil
     (handlerRuns ?cfg [firstRun, switchRun] (resetPluginState startedVcl)) = 8000 + 2000"
    using t2 by (simp_all add: tracks_def startupWindowEnd_def switchWindowEnd_def)
  have b: "suppressToastsUntil
     (handlerRuns ?cfg [firstRun, switchRun, ownUpdateRun, laterRun] (resetPluginState startedVcl))
       = 8000 + 2000"
    using t4 by (simp add: tracks_def startupWindowEnd_def switchWindowEnd_def)
  have quietJoin: "toastOf ?cfg (fst (VOICE_STATE_UPDATES ?cfg vclHost2 (startAt 8000) ?sw
               (handlerRuns ?cfg [firstRun] (resetPluginState startedVcl))) ! 1) = []"
  proof -
    have "(toastOf ?cfg (fst (VOICE_STATE_UPDATES ?cfg vclHost2 (startAt 8000) ?sw
               (handlerRuns ?cfg [firstRun] (resetPluginState startedVcl))) ! 1) \<noteq> [])
        = announced ?cfg vclHost2 ''c2''
            (startupWindowEnd \<lparr>startupFrom = Some 1000, switchFrom = Some 8000,
                                knownChannel = Some ''c2''\<rparr>)
            (switchWindowEnd \<lparr>startupFrom = Some 1000, switchFrom = Some 8000,
                               knownChannel = Some ''c2''\<rparr>)
            (?sw ! 1)"
      using first host2 unfolding w2 by simp
    then show ?thesis
      by (simp add: announced_def switchWindowEnd_def atTime_def leaves_def joinOf_def)
  qed
  have c: "toasts (handlerRuns ?cfg [firstRun, switchRun] (resetPluginState startedVcl)) = []"
    unfolding reset_started after_switchRun by (simp add: switchedVcl_def)
  have shownJoin: "toastOf ?cfg (fst (VOICE_STATE_UPDATES ?cfg vclHost2 (startAt 10500) ?lt
               (handlerRuns ?cfg [firstRun, switchRun, ownUpdateRun] (resetPluginState startedVcl))) ! 0)
        \<noteq> []"
  proof -
    have "(toastOf ?cfg (fst (VOICE_STATE_UPDATES ?cfg vclHost2 (startAt 10500) ?lt
               (handlerRuns ?cfg [firstRun, switchRun, ownUpdateRun] (resetPluginState startedVcl))) ! 0)
            \<noteq> [])
        = announced ?cfg vclHost2 ''c2''
            (startupWindowEnd \<lparr>startupFrom = Some 1000, switchFrom = Some 8000,
                                knownChannel = Some ''c2''\<rparr>)
            (switchWindowEnd \<lparr>startupFrom = Some 1000, switchFrom = Some 8000,
                               knownChannel = Some ''c2''\<rparr>)
            (?lt ! 0)"
      using last host2 unfolding w4 by simp
    then show ?thesis
      by (simp add: announced_def switchWindowEnd_def startupWindowEnd_def atTime_def
          passesFilters_def filteredOut_def joins_def joinOf_def vclHost2_def vclHost_def
          defaultVclSettings_def)
  qed
  have d: "toasts (handlerRuns ?cfg [firstRun, switchRun, ownUpdateRun, laterRun]
             (resetPluginState startedVcl))
     = toasts (handlerRuns ?cfg [firstRun, switchRun, ownUpdateRun] (resetPluginState startedVcl)) @
       concat (map (toastOf ?cfg)
         (fst (VOICE_STATE_UPDATES ?cfg vclHost2 (startAt 10500) ?lt
            (handlerRuns ?cfg [firstRun, switchRun, ownUpdateRun] (resetPluginState startedVcl)))))"
    using last unfolding run4[symmetric] by blast
  have e: "toasts (handlerRuns ?cfg [firstRun, switchRun, ownUpdateRun, laterRun]
             (resetPluginState startedVcl))
     = [entryIn2 ''x'' Join None 10500, entryIn2 ''w'' Leave (Some 2100) 10600]"
    unfolding d unfolding reset_started after_ownUpdateRun later_outcomes
    by (simp add: switchedVcl_def defaultVclSettings_def)
  from a b c e quietJoin shownJoin show ?thesis by simp
qed

text \<open>
  C4, as the spec has it, fails for leave events when \<^verbatim>\<open>onlyLogJoins\<close> is on: with
  \<^verbatim>\<open>showToastNotifications\<close> and \<^verbatim>\<open>suppressToastsForExistingUsers\<close> on, after the
  initialization at 1000, the leave of user \<^verbatim>\<open>u\<close> from the current user's channel at
  7000 is skipped and no toast is shown.
\<close>

theorem leave_without_toast_counterexample:
  "showToastNotifications joinsOnlyVclSettings \<and>
   suppressToastsForExistingUsers joinsOnlyVclSettings \<and>
   toasts (handlerRuns joinsOnlyVclSettings [firstRun] startedVcl) = [] \<and>
   fst (VOICE_STATE_UPDATES joinsOnlyVclSettings vclHost (startAt 7000)
          [(leaveOf ''u'' ''c1'', atTime 7000)]
          (handlerRuns joinsOnlyVclSettings [firstRun] startedVcl)) = [Skipped] \<and>
   toasts (snd (VOICE_STATE_UPDATES joinsOnlyVclSettings vclHost (startAt 7000)
                  [(leaveOf ''u'' ''c1'', atTime 7000)]
                  (handlerRuns joinsOnlyVclSettings [firstRun] startedVcl))) = []"
  by (simp add: joinsOnlyVclSettings_def firstRun_def startedVcl_def vcl_run_defs vcl_step_defs
      vcl_example_defs)

end
